theory Spec2Isabelle
  imports Main "HOL-Library.Word"
begin

unbundle bit_operations_syntax

section \<open>Data model\<close>

text \<open>
  The validation core of \<^verbatim>\<open>src/validate.cpp\<close>. Fixed-width integers are words;
  \<^verbatim>\<open>size_t\<close> is taken at 64 bits. Vectors are lists; positions in a vector
  (\<^verbatim>\<open>current_input\<close>, \<^verbatim>\<open>tx_index\<close>, \<^verbatim>\<open>input_index\<close>) are natural numbers, since a
  vector index never exceeds the vector's size. \<^verbatim>\<open>BITCOIN_ASSERT\<close> expands to nothing
  in a release build, and the model is that of the release build.
\<close>

type_synonym byte = "8 word"
type_synonym uint32_t = "32 word"
type_synonym uint64_t = "64 word"
type_synonym size_t = "64 word"
type_synonym hash_digest = "byte list"

text \<open>
  An \<^verbatim>\<open>opcode\<close> is the integer value of its enumerator; \<^verbatim>\<open>static_cast<byte>\<close>
  keeps its low eight bits.
\<close>

type_synonym opcode = nat

record operation =
  code :: opcode
  data :: "byte list"

text \<open>A \<^verbatim>\<open>script\<close> is read only through \<^verbatim>\<open>operations()\<close>: it is its operation stack.\<close>

type_synonym script = "operation list"

record output_point =
  hash :: hash_digest
  index :: uint32_t

record transaction_input =
  previous_output :: output_point
  input_script :: script
  sequence :: uint32_t

record transaction_output =
  value' :: uint64_t
  output_script :: script

record transaction =
  version :: uint32_t
  locktime :: uint32_t
  inputs :: "transaction_input list"
  outputs :: "transaction_output list"

record block =
  block_version :: uint32_t
  previous_block_hash :: hash_digest
  merkle :: hash_digest
  timestamp :: uint32_t
  bits :: uint32_t
  nonce :: uint32_t
  transactions :: "transaction list"

text \<open>A pool entry (\<^verbatim>\<open>transaction_entry_info\<close>): the hash and the transaction.\<close>

record transaction_entry_info =
  entry_hash :: hash_digest
  entry_tx :: transaction

type_synonym pool_buffer = "transaction_entry_info list"
type_synonym index_list = "uint32_t list"

text \<open>
  \<^verbatim>\<open>error::error_code_t\<close> of \<^verbatim>\<open>error.hpp\<close>. A \<^verbatim>\<open>std::error_code\<close> is \<open>None\<close> when it
  is the default-constructed success value and \<open>Some e\<close> otherwise, so \<^verbatim>\<open>if (ec)\<close> is
  \<open>ec \<noteq> None\<close>.
\<close>

datatype error_code_t =
    service_stopped
  | not_found
  | duplicate
  | unspent_output
  | unsupported_payment_type
  | start_failed
  | resolve_failed
  | network_unreachable
  | address_in_use
  | listen_failed
  | accept_failed
  | bad_stream
  | channel_timeout
  | coinbase_transaction
  | is_not_standard
  | double_spend
  | input_not_found
  | empty_transaction
  | output_value_overflow
  | invalid_coinbase_script_size
  | previous_output_null
  | previous_block_invalid
  | size_limits
  | proof_of_work
  | futuristic_timestamp
  | first_not_coinbase
  | extra_coinbases
  | too_many_sigs
  | merkle_mismatch
  | incorrect_proof_of_work
  | timestamp_too_early
  | non_final_transaction
  | checkpoints_failed
  | duplicate_or_spent
  | validate_inputs_failed
  | fees_out_of_range
  | coinbase_too_large

type_synonym error_code = "error_code_t option"

text \<open>
  Reading a vector outside its bounds with \<^verbatim>\<open>operator[]\<close> has no defined result. A
  function that can do so returns \<open>Inl out_of_range_access\<close> there.
\<close>

datatype fault = out_of_range_access

text \<open>
  Functions of the library that \<^verbatim>\<open>validate.cpp\<close> calls and whose code is elsewhere
  (hashing, serialisation, the script interpreter and parser). They are parameters of
  the model.
  \<^item> \<open>hash_transaction tx\<close>
  \<^item> \<open>save_script_size s\<close> is \<^verbatim>\<open>save_script(s).size()\<close>
  \<^item> \<open>run out_script in_script tx i bip16\<close> is
    \<^verbatim>\<open>out_script.run(in_script, tx, i, bip16)\<close>
  \<^item> \<open>is_script_hash s\<close> is \<^verbatim>\<open>s.type() == payment_type::script_hash\<close>
  \<^item> \<open>parse_script bytes\<close>
  \<^item> \<open>bip16_switchover_timestamp\<close>, a constant of \<^verbatim>\<open>constants.hpp\<close>
\<close>

record externals =
  hash_transaction :: "transaction \<Rightarrow> hash_digest"
  save_script_size :: "script \<Rightarrow> nat"
  run :: "script \<Rightarrow> script \<Rightarrow> transaction \<Rightarrow> nat \<Rightarrow> bool \<Rightarrow> bool"
  is_script_hash :: "script \<Rightarrow> bool"
  parse_script :: "byte list \<Rightarrow> script"
  bip16_switchover_timestamp :: uint32_t

section \<open>Constants\<close>

text \<open>
  Modelled from the spec: \<^verbatim>\<open>constants.hpp\<close> is not among the sources. The
  values are those of the specification's list of constants:
  \<open>MAX_MONEY = 21_000_000 * 10^8\<close>, \<open>COINBASE_MATURITY = 100\<close>,
  \<open>TARGET_TIMESPAN = 14 * 24 * 3600\<close>, \<open>READJUSTMENT_INTERVAL = 2016\<close>.
\<close>

definition max_money :: uint64_t where
  "max_money = 2100000000000000"

definition coinbase_maturity :: nat where
  "coinbase_maturity = 100"

definition target_timespan :: uint64_t where
  "target_timespan = 1209600"

definition readjustment_interval :: size_t where
  "readjustment_interval = 2016"

text \<open>From \<^verbatim>\<open>validate.cpp\<close> itself.\<close>

definition max_block_size :: nat where
  "max_block_size = 1000000"

definition max_block_script_sig_operations :: nat where
  "max_block_script_sig_operations = max_block_size div 50"

section \<open>Helpers of the transaction module\<close>

text \<open>
  Modelled from the spec: \<^verbatim>\<open>transaction.cpp\<close> is not among the sources.
  A null outpoint is the all-ones index with the zero hash; a coinbase transaction has
  exactly one input, whose previous output is null; \<open>total_output_value\<close> is the sum
  of the output values, returned as a \<^verbatim>\<open>uint64_t\<close>.
\<close>

definition null_hash :: hash_digest where
  "null_hash = replicate 32 0"

definition previous_output_is_null :: "output_point \<Rightarrow> bool" where
  "previous_output_is_null previous_output' \<longleftrightarrow>
     index previous_output' = - 1 \<and> hash previous_output' = null_hash"

definition is_coinbase :: "transaction \<Rightarrow> bool" where
  "is_coinbase tx \<longleftrightarrow>
     length (inputs tx) = 1 \<and> previous_output_is_null (previous_output (inputs tx ! 0))"

definition total_output_value :: "transaction \<Rightarrow> uint64_t" where
  "total_output_value tx = sum_list (map value' (outputs tx))"

section \<open>Context-free transaction check\<close>

text \<open>
  The loop over \<^verbatim>\<open>tx.outputs\<close> of \<^verbatim>\<open>check_transaction\<close>, with the running
  \<^verbatim>\<open>total_output_value\<close>; the result is the error the loop returns with, if any.
\<close>

fun check_output_values :: "uint64_t \<Rightarrow> transaction_output list \<Rightarrow> error_code" where
  "check_output_values total_output_value' [] = None"
| "check_output_values total_output_value' (output' # rest) =
     (if value' output' > max_money then Some output_value_overflow
      else let total_output_value'' = total_output_value' + value' output' in
        if total_output_value'' > max_money then Some output_value_overflow
        else check_output_values total_output_value'' rest)"

definition check_transaction :: "externals \<Rightarrow> transaction \<Rightarrow> error_code" where
  "check_transaction ext tx =
     (if inputs tx = [] \<or> outputs tx = [] then Some empty_transaction
      else case check_output_values 0 (outputs tx) of
        Some ec \<Rightarrow> Some ec
      | None \<Rightarrow>
          if is_coinbase tx then
            (let coinbase_script_size = save_script_size ext (input_script (inputs tx ! 0)) in
             if coinbase_script_size < 2 \<or> coinbase_script_size > 100
             then Some invalid_coinbase_script_size
             else None)
          else if list_ex (\<lambda>input'. previous_output_is_null (previous_output input')) (inputs tx)
          then Some previous_output_null
          else None)"

section \<open>Counting signature operations\<close>

text \<open>
  The enumerators of \<^verbatim>\<open>opcode\<close> that \<^verbatim>\<open>count_script_sigops\<close> names. The enumeration
  is declared in \<^verbatim>\<open>script.hpp\<close>, which is not among the sources: the
  values are parameters of the model.
\<close>

record opcode_values =
  checksig :: opcode
  checksigverify :: opcode
  checkmultisig :: opcode
  checkmultisigverify :: opcode
  op_1 :: opcode
  op_16 :: opcode

definition raw_code :: "opcode \<Rightarrow> byte" where
  "raw_code c = word_of_nat c"

text \<open>
  One iteration of the loop of \<^verbatim>\<open>count_script_sigops\<close>, on the pair
  \<open>(total_sigs, last_number)\<close>, and the loop.
\<close>

definition count_script_sigops_step ::
  "opcode_values \<Rightarrow> bool \<Rightarrow> size_t \<times> size_t \<Rightarrow> operation \<Rightarrow> size_t \<times> size_t" where
  "count_script_sigops_step oc accurate st op =
     (let total_sigs = fst st; last_number = snd st;
          total_sigs' =
            (if code op = checksig oc \<or> code op = checksigverify oc then total_sigs + 1
             else if code op = checkmultisig oc \<or> code op = checkmultisigverify oc then
               (if accurate \<and> last_number \<noteq> 0 then total_sigs + last_number
                else total_sigs + 20)
             else total_sigs);
          last_number' =
            (if raw_code (op_1 oc) \<le> raw_code (code op) \<and> raw_code (op_16 oc) \<ge> raw_code (code op)
             then ucast (raw_code (code op))
             else last_number)
      in (total_sigs', last_number'))"

fun count_script_sigops_loop ::
  "opcode_values \<Rightarrow> bool \<Rightarrow> size_t \<times> size_t \<Rightarrow> operation list \<Rightarrow> size_t \<times> size_t" where
  "count_script_sigops_loop oc accurate st [] = st"
| "count_script_sigops_loop oc accurate st (op # rest) =
     count_script_sigops_loop oc accurate (count_script_sigops_step oc accurate st op) rest"

definition count_script_sigops :: "opcode_values \<Rightarrow> operation list \<Rightarrow> bool \<Rightarrow> size_t" where
  "count_script_sigops oc operations accurate =
     fst (count_script_sigops_loop oc accurate (0, 0) operations)"

definition tx_legacy_sigops_count :: "opcode_values \<Rightarrow> transaction \<Rightarrow> size_t" where
  "tx_legacy_sigops_count oc tx =
     sum_list (map (\<lambda>input'. count_script_sigops oc (input_script input') False) (inputs tx))
     + sum_list (map (\<lambda>output'. count_script_sigops oc (output_script output') False) (outputs tx))"

text \<open>
  For the statements about \<^verbatim>\<open>checkmultisig\<close>: the value that \<^verbatim>\<open>last_number\<close> has
  after the operations \<open>ops\<close>, read off the sequence itself. It is the raw code of
  the most recently seen operation whose raw code lies between those of \<^verbatim>\<open>op_1\<close> and
  \<^verbatim>\<open>op_16\<close>, and \<open>0\<close> when there is none.
\<close>

definition last_number_seen :: "opcode_values \<Rightarrow> operation list \<Rightarrow> size_t" where
  "last_number_seen oc ops =
     (case find (\<lambda>op. raw_code (op_1 oc) \<le> raw_code (code op) \<and>
                      raw_code (code op) \<le> raw_code (op_16 oc)) (rev ops) of
        None \<Rightarrow> 0
      | Some op \<Rightarrow> ucast (raw_code (code op)))"

section \<open>Proof of work and retargeting\<close>

text \<open>
  A \<^verbatim>\<open>big_number\<close> is an integer of unbounded size. The class is not among the
  sources; the compact decoding and encoding and the two constants
  \<^verbatim>\<open>max_target()\<close> and \<^verbatim>\<open>max_bits\<close> are parameters of the model.
\<close>

record target_encoding =
  set_compact :: "uint32_t \<Rightarrow> int"
  compact :: "int \<Rightarrow> uint32_t"
  max_target :: int
  max_bits :: uint32_t

text \<open>
  Modelled from the spec: \<^verbatim>\<open>big_number::set_hash\<close> is not among the sources.
  The hash is read as a little-endian unsigned integer.
\<close>

fun set_hash :: "hash_digest \<Rightarrow> int" where
  "set_hash [] = 0"
| "set_hash (b # bs) = uint b + 256 * set_hash bs"

text \<open>
  Modelled from the spec: the division of \<^verbatim>\<open>big_number\<close> is exact integer division;
  as in C++, the quotient is rounded towards zero.
\<close>

definition big_number_div :: "int \<Rightarrow> int \<Rightarrow> int" where
  "big_number_div a b = sgn a * sgn b * (\<bar>a\<bar> div \<bar>b\<bar>)"

definition check_proof_of_work :: "target_encoding \<Rightarrow> hash_digest \<Rightarrow> uint32_t \<Rightarrow> bool" where
  "check_proof_of_work enc block_hash bits' =
     (let target = set_compact enc bits' in
      if target \<le> 0 \<or> target > max_target enc then False
      else let our_value = set_hash block_hash in
        if our_value > target then False else True)"

definition range_constraint :: "'a::linorder \<Rightarrow> 'a \<Rightarrow> 'a \<Rightarrow> 'a" where
  "range_constraint value'' minimum maximum =
     (if value'' < minimum then minimum
      else if value'' > maximum then maximum
      else value'')"

text \<open>
  The chain as \<^verbatim>\<open>validate_block\<close> sees it: the pure virtual member functions that a
  subclass implements. \<open>fetch_transaction view h\<close> is \<open>Some (tx, depth)\<close> when the
  member function returns true and sets its two reference parameters.
  \<open>is_output_spent_within\<close> is the three-argument overload of \<^verbatim>\<open>is_output_spent\<close>.
\<close>

record chain_view =
  previous_block_bits :: uint32_t
  actual_timespan :: "size_t \<Rightarrow> uint64_t"
  transaction_exists :: "hash_digest \<Rightarrow> bool"
  is_output_spent :: "output_point \<Rightarrow> bool"
  is_output_spent_within :: "output_point \<Rightarrow> nat \<Rightarrow> nat \<Rightarrow> bool"
  fetch_transaction :: "hash_digest \<Rightarrow> (transaction \<times> size_t) option"

text \<open>
  \<^verbatim>\<open>retarget *= actual\<close> multiplies by the clamped timespan, a number below \<open>2^32\<close>,
  so the conversion of \<^verbatim>\<open>actual\<close> to a \<^verbatim>\<open>big_number\<close> keeps its value.
\<close>

definition work_required :: "target_encoding \<Rightarrow> chain_view \<Rightarrow> size_t \<Rightarrow> uint32_t" where
  "work_required enc view depth =
     (if depth = 0 then max_bits enc
      else if depth mod readjustment_interval \<noteq> 0 then previous_block_bits view
      else
        let actual = actual_timespan view readjustment_interval;
            actual_clamped = range_constraint actual (target_timespan div 4) (target_timespan * 4);
            retarget = set_compact enc (previous_block_bits view);
            retarget_scaled = retarget * uint actual_clamped;
            retarget_divided = big_number_div retarget_scaled (uint target_timespan);
            retarget_capped =
              (if retarget_divided > max_target enc then max_target enc else retarget_divided)
        in compact enc retarget_capped)"

section \<open>Fees and subsidy\<close>

text \<open>
  \<^verbatim>\<open>tally_fees\<close> returns its verdict and leaves the new total in the reference
  parameter \<^verbatim>\<open>total_fees\<close>: the model returns both.
\<close>

definition tally_fees :: "transaction \<Rightarrow> uint64_t \<Rightarrow> uint64_t \<Rightarrow> bool \<times> uint64_t" where
  "tally_fees tx value_in' total_fees =
     (let value_out = total_output_value tx in
      if value_in' < value_out then (False, total_fees)
      else let fee = value_in' - value_out;
               total_fees' = total_fees + fee in
        if total_fees' > max_money then (False, total_fees') else (True, total_fees'))"

text \<open>
  Modelled from the spec: \<^verbatim>\<open>block_value\<close> is not among the sources. The
  subsidy is \<open>50 * 10^8\<close> shifted right by \<open>height / 210000\<close>, zero once the shift
  exhausts.
\<close>

definition block_value :: "size_t \<Rightarrow> uint64_t" where
  "block_value depth = drop_bit (unat depth div 210000) 5000000000"

section \<open>Connecting a block\<close>

text \<open>
  The output counter of \<^verbatim>\<open>not_duplicate_or_spent\<close> is a \<^verbatim>\<open>uint32_t\<close>; the model is
  that of the loop for a transaction with fewer than \<open>2^32\<close> outputs, on which the
  counter does not wrap.
\<close>

definition not_duplicate_or_spent :: "externals \<Rightarrow> chain_view \<Rightarrow> transaction \<Rightarrow> bool" where
  "not_duplicate_or_spent ext view tx =
     (let tx_hash = hash_transaction ext tx in
      if \<not> transaction_exists view tx_hash then True
      else list_all
        (\<lambda>output_index. is_output_spent view \<lparr>hash = tx_hash, index = word_of_nat output_index\<rparr>)
        [0 ..< length (outputs tx)])"

definition script_hash_signature_operations_count ::
  "externals \<Rightarrow> opcode_values \<Rightarrow> script \<Rightarrow> script \<Rightarrow> size_t" where
  "script_hash_signature_operations_count ext oc output_script' input_script' =
     (if \<not> is_script_hash ext output_script' then count_script_sigops oc output_script' True
      else if input_script' = [] then 0
      else let eval_script = parse_script ext (data (last input_script')) in
        count_script_sigops oc eval_script True)"

text \<open>
  \<^verbatim>\<open>validate_block::connect_input\<close>. The reference parameters \<^verbatim>\<open>value_in\<close> and
  \<^verbatim>\<open>total_sigops\<close> are the pair \<open>st\<close>; the result is \<open>Inr None\<close> where the function
  returns false (its caller then stops and reads neither), \<open>Inr (Some st')\<close> where it
  returns true, and \<open>Inl out_of_range_access\<close> where
  \<^verbatim>\<open>previous_tx.outputs[previous_output.index]\<close> reads past the end of the vector.
  \<^verbatim>\<open>BITCOIN_ASSERT\<close> is a debug-only check and no part of the model.
\<close>

definition validate_block_connect_input ::
  "externals \<Rightarrow> opcode_values \<Rightarrow> chain_view \<Rightarrow> size_t \<Rightarrow> block \<Rightarrow> nat \<Rightarrow> transaction \<Rightarrow> nat
    \<Rightarrow> uint64_t \<times> size_t \<Rightarrow> fault + (uint64_t \<times> size_t) option" where
  "validate_block_connect_input ext oc view depth current_block index_in_parent current_tx
      input_index st =
     (let input' = inputs current_tx ! input_index;
          previous_output' = previous_output input' in
      case fetch_transaction view (hash previous_output') of
        None \<Rightarrow> Inr None
      | Some (previous_tx, previous_depth) \<Rightarrow>
          if length (outputs previous_tx) \<le> unat (index previous_output')
          then Inl out_of_range_access
          else
            let previous_tx_out = outputs previous_tx ! unat (index previous_output');
                total_sigops = snd st + script_hash_signature_operations_count ext oc
                  (output_script previous_tx_out) (input_script input') in
            if unat total_sigops > max_block_script_sig_operations then Inr None
            else
              let output_value = value' previous_tx_out in
              if output_value > max_money then Inr None
              else if is_coinbase previous_tx \<and>
                  unat (ucast (depth - previous_depth) :: uint32_t) < coinbase_maturity
              then Inr None
              else
                let bip16_enabled = (timestamp current_block \<ge> bip16_switchover_timestamp ext) in
                if \<not> run ext (output_script previous_tx_out) (input_script input')
                      current_tx input_index bip16_enabled
                then Inr None
                else if is_output_spent_within view previous_output' index_in_parent input_index
                then Inr None
                else
                  let value_in' = fst st + output_value in
                  if value_in' > max_money then Inr None
                  else Inr (Some (value_in', total_sigops)))"

text \<open>The loop of \<^verbatim>\<open>validate_inputs\<close> over the input indices that remain.\<close>

fun validate_inputs_loop ::
  "externals \<Rightarrow> opcode_values \<Rightarrow> chain_view \<Rightarrow> size_t \<Rightarrow> block \<Rightarrow> nat \<Rightarrow> transaction
    \<Rightarrow> uint64_t \<times> size_t \<Rightarrow> nat list \<Rightarrow> fault + (uint64_t \<times> size_t) option" where
  "validate_inputs_loop ext oc view depth current_block index_in_parent tx st [] = Inr (Some st)"
| "validate_inputs_loop ext oc view depth current_block index_in_parent tx st
      (input_index # rest) =
     (case validate_block_connect_input ext oc view depth current_block index_in_parent tx
             input_index st of
        Inl f \<Rightarrow> Inl f
      | Inr None \<Rightarrow> Inr None
      | Inr (Some st') \<Rightarrow>
          validate_inputs_loop ext oc view depth current_block index_in_parent tx st' rest)"

definition validate_inputs ::
  "externals \<Rightarrow> opcode_values \<Rightarrow> chain_view \<Rightarrow> size_t \<Rightarrow> block \<Rightarrow> transaction \<Rightarrow> nat
    \<Rightarrow> uint64_t \<times> size_t \<Rightarrow> fault + (uint64_t \<times> size_t) option" where
  "validate_inputs ext oc view depth current_block tx index_in_parent st =
     validate_inputs_loop ext oc view depth current_block index_in_parent tx st
       [0 ..< length (inputs tx)]"

text \<open>
  The loop of \<^verbatim>\<open>connect_block\<close> over the transactions after the first, on the pair
  \<open>(fees, total_sigops)\<close>: \<open>Inr (Inl ec)\<close> where the loop returns with an error,
  \<open>Inr (Inr (fees, total_sigops))\<close> where it runs to its end.
\<close>

fun connect_transactions ::
  "externals \<Rightarrow> opcode_values \<Rightarrow> chain_view \<Rightarrow> size_t \<Rightarrow> block \<Rightarrow> uint64_t \<times> size_t \<Rightarrow> nat
    \<Rightarrow> transaction list \<Rightarrow> fault + (error_code_t + uint64_t \<times> size_t)" where
  "connect_transactions ext oc view depth current_block st tx_index [] = Inr (Inr st)"
| "connect_transactions ext oc view depth current_block st tx_index (tx # rest) =
     (let fees = fst st;
          total_sigops = snd st + tx_legacy_sigops_count oc tx in
      if unat total_sigops > max_block_script_sig_operations then Inr (Inl too_many_sigs)
      else
        case validate_inputs ext oc view depth current_block tx tx_index (0, total_sigops) of
          Inl f \<Rightarrow> Inl f
        | Inr None \<Rightarrow> Inr (Inl validate_inputs_failed)
        | Inr (Some (value_in', total_sigops')) \<Rightarrow>
            (case tally_fees tx value_in' fees of
               (False, _) \<Rightarrow> Inr (Inl fees_out_of_range)
             | (True, fees') \<Rightarrow>
                 connect_transactions ext oc view depth current_block (fees', total_sigops')
                   (Suc tx_index) rest))"

text \<open>
  \<^verbatim>\<open>connect_block\<close>. The result is the returned \<^verbatim>\<open>std::error_code\<close>, or a fault where
  a vector is read past its end (in \<^verbatim>\<open>connect_input\<close>, or \<^verbatim>\<open>transactions[0]\<close> of a
  block without transactions).
\<close>

definition connect_block ::
  "externals \<Rightarrow> opcode_values \<Rightarrow> chain_view \<Rightarrow> size_t \<Rightarrow> block \<Rightarrow> fault + error_code" where
  "connect_block ext oc view depth current_block =
     (if depth \<noteq> 91842 \<and> depth \<noteq> 91880 \<and>
         \<not> list_all (not_duplicate_or_spent ext view) (transactions current_block)
      then Inr (Some duplicate_or_spent)
      else
        case connect_transactions ext oc view depth current_block (0, 0) 1
               (drop 1 (transactions current_block)) of
          Inl f \<Rightarrow> Inl f
        | Inr (Inl ec) \<Rightarrow> Inr (Some ec)
        | Inr (Inr (fees, total_sigops)) \<Rightarrow>
            if transactions current_block = [] then Inl out_of_range_access
            else
              let coinbase_value = total_output_value (transactions current_block ! 0) in
              if coinbase_value > block_value depth + fees then Inr (Some coinbase_too_large)
              else Inr None)"

text \<open>
  For the statements about the coinbase value: the value of \<^verbatim>\<open>fees\<close> when the loop of
  \<^verbatim>\<open>connect_block\<close> has run to its end, and whether the BIP 30 test lets the block
  through.
\<close>

definition accumulated_fees ::
  "externals \<Rightarrow> opcode_values \<Rightarrow> chain_view \<Rightarrow> size_t \<Rightarrow> block \<Rightarrow> uint64_t option" where
  "accumulated_fees ext oc view depth current_block =
     (case connect_transactions ext oc view depth current_block (0, 0) 1
             (drop 1 (transactions current_block)) of
        Inr (Inr (fees, total_sigops)) \<Rightarrow> Some fees
      | _ \<Rightarrow> None)"

definition passes_bip30 :: "externals \<Rightarrow> chain_view \<Rightarrow> size_t \<Rightarrow> block \<Rightarrow> bool" where
  "passes_bip30 ext view depth current_block \<longleftrightarrow>
     depth = 91842 \<or> depth = 91880 \<or>
     list_all (not_duplicate_or_spent ext view) (transactions current_block)"

section \<open>Validating a transaction for the memory pool\<close>

definition fetch :: "pool_buffer \<Rightarrow> hash_digest \<Rightarrow> transaction option" where
  "fetch pool tx_hash = map_option entry_tx (find (\<lambda>entry. entry_hash entry = tx_hash) pool)"

definition is_spent :: "pool_buffer \<Rightarrow> output_point \<Rightarrow> bool" where
  "is_spent pool outpoint =
     list_ex (\<lambda>entry.
       list_ex (\<lambda>current_input'. previous_output current_input' = outpoint)
         (inputs (entry_tx entry))) pool"

definition is_standard :: bool where
  "is_standard = True"

definition basic_checks :: "externals \<Rightarrow> pool_buffer \<Rightarrow> transaction \<Rightarrow> error_code" where
  "basic_checks ext pool tx =
     (case check_transaction ext tx of
        Some ec \<Rightarrow> Some ec
      | None \<Rightarrow>
          if is_coinbase tx then Some coinbase_transaction
          else if \<not> is_standard then Some is_not_standard
          else if fetch pool (hash_transaction ext tx) \<noteq> None then Some duplicate
          else None)"

text \<open>
  \<^verbatim>\<open>validate_transaction::connect_input\<close>: the verdict and the new value of the
  reference parameter \<^verbatim>\<open>value_in\<close>. The script runs without the BIP 16 flag, whose
  default is false. The caller passes a \<^verbatim>\<open>current_input\<close> inside \<^verbatim>\<open>tx.inputs\<close>.
\<close>

definition validate_transaction_connect_input ::
  "externals \<Rightarrow> transaction \<Rightarrow> nat \<Rightarrow> transaction \<Rightarrow> size_t \<Rightarrow> size_t \<Rightarrow> uint64_t
    \<Rightarrow> bool \<times> uint64_t" where
  "validate_transaction_connect_input ext tx current_input' previous_tx parent_depth
      last_block_depth' value_in' =
     (let input' = inputs tx ! current_input';
          previous_outpoint = previous_output (inputs tx ! current_input') in
      if unat (index previous_outpoint) \<ge> length (outputs previous_tx) then (False, value_in')
      else
        let previous_output' = outputs previous_tx ! unat (index previous_outpoint);
            output_value = value' previous_output' in
        if output_value > max_money then (False, value_in')
        else if is_coinbase previous_tx \<and>
            unat (last_block_depth' - parent_depth) < coinbase_maturity
        then (False, value_in')
        else
          let output_script' = output_script previous_output' in
          if \<not> run ext output_script' (input_script input') tx current_input' False
          then (False, value_in')
          else
            let value_in'' = value_in' + output_value in
            if value_in'' > max_money then (False, value_in'') else (True, value_in''))"

text \<open>
  The validator between two callbacks. \<open>pending\<close> is the callback bound to the query
  that is in flight (\<open>None\<close> when no query is); \<open>handled\<close> lists the invocations of
  \<^verbatim>\<open>handle_validate_\<close> so far, in order. The members that the constructor leaves
  unset are written before they are read; they start at zero here.
\<close>

datatype callback =
    pending_duplicate_check
  | pending_last_depth
  | pending_tx_index
  | pending_previous_tx size_t
  | pending_spend

record validate_transaction_state =
  last_block_depth :: size_t
  value_in :: uint64_t
  current_input :: nat
  unconfirmed :: index_list
  pending :: "callback option"
  handled :: "(error_code \<times> index_list) list"

definition handle_validate ::
  "validate_transaction_state \<Rightarrow> error_code \<Rightarrow> index_list \<Rightarrow> validate_transaction_state" where
  "handle_validate st ec indices = st\<lparr>handled := handled st @ [(ec, indices)]\<rparr>"

definition initial_state :: validate_transaction_state where
  "initial_state =
     \<lparr>last_block_depth = 0, value_in = 0, current_input = 0, unconfirmed = [],
      pending = None, handled = []\<rparr>"

definition start :: "externals \<Rightarrow> pool_buffer \<Rightarrow> transaction \<Rightarrow> validate_transaction_state" where
  "start ext pool tx =
     (case basic_checks ext pool tx of
        Some ec \<Rightarrow> handle_validate initial_state (Some ec) []
      | None \<Rightarrow> initial_state\<lparr>pending := Some pending_duplicate_check\<rparr>)"

definition handle_duplicate_check ::
  "pool_buffer \<Rightarrow> transaction \<Rightarrow> validate_transaction_state \<Rightarrow> error_code
    \<Rightarrow> validate_transaction_state" where
  "handle_duplicate_check pool tx st ec =
     (if ec \<noteq> Some not_found then handle_validate st (Some duplicate) []
      else if list_ex (\<lambda>input'. is_spent pool (previous_output input')) (inputs tx)
      then handle_validate st (Some double_spend) []
      else st\<lparr>pending := Some pending_last_depth\<rparr>)"

definition next_previous_transaction ::
  "validate_transaction_state \<Rightarrow> validate_transaction_state" where
  "next_previous_transaction st = st\<lparr>pending := Some pending_tx_index\<rparr>"

definition set_last_depth ::
  "validate_transaction_state \<Rightarrow> error_code \<Rightarrow> size_t \<Rightarrow> validate_transaction_state" where
  "set_last_depth st ec last_depth =
     (if ec \<noteq> None then handle_validate st ec []
      else next_previous_transaction
        (st\<lparr>last_block_depth := last_depth, value_in := 0, current_input := 0\<rparr>))"

definition handle_previous_tx ::
  "externals \<Rightarrow> transaction \<Rightarrow> validate_transaction_state \<Rightarrow> error_code \<Rightarrow> transaction \<Rightarrow> size_t
    \<Rightarrow> validate_transaction_state" where
  "handle_previous_tx ext tx st ec previous_tx parent_depth =
     (if ec \<noteq> None
      then handle_validate st (Some input_not_found) [word_of_nat (current_input st)]
      else
        case validate_transaction_connect_input ext tx (current_input st) previous_tx
               parent_depth (last_block_depth st) (value_in st) of
          (False, value_in') \<Rightarrow>
            handle_validate (st\<lparr>value_in := value_in'\<rparr>) (Some validate_inputs_failed) []
        | (True, value_in') \<Rightarrow> st\<lparr>value_in := value_in', pending := Some pending_spend\<rparr>)"

definition search_pool_previous_tx ::
  "externals \<Rightarrow> pool_buffer \<Rightarrow> transaction \<Rightarrow> validate_transaction_state
    \<Rightarrow> validate_transaction_state" where
  "search_pool_previous_tx ext pool tx st =
     (let previous_tx_hash = hash (previous_output (inputs tx ! current_input st)) in
      case fetch pool previous_tx_hash of
        None \<Rightarrow> handle_validate st (Some input_not_found) [word_of_nat (current_input st)]
      | Some previous_tx \<Rightarrow>
          let st' = handle_previous_tx ext tx st None previous_tx 0 in
          st'\<lparr>unconfirmed := unconfirmed st' @ [word_of_nat (current_input st')]\<rparr>)"

definition previous_tx_index ::
  "externals \<Rightarrow> pool_buffer \<Rightarrow> transaction \<Rightarrow> validate_transaction_state \<Rightarrow> error_code \<Rightarrow> size_t
    \<Rightarrow> validate_transaction_state" where
  "previous_tx_index ext pool tx st ec parent_depth =
     (if ec \<noteq> None then search_pool_previous_tx ext pool tx st
      else st\<lparr>pending := Some (pending_previous_tx parent_depth)\<rparr>)"

definition check_fees :: "transaction \<Rightarrow> validate_transaction_state \<Rightarrow> validate_transaction_state" where
  "check_fees tx st =
     (let fee = snd (tally_fees tx (value_in st) 0) in
      handle_validate st None (unconfirmed st))"

definition check_double_spend ::
  "transaction \<Rightarrow> validate_transaction_state \<Rightarrow> error_code \<Rightarrow> validate_transaction_state" where
  "check_double_spend tx st ec =
     (if ec = Some unspent_output then
        (let st' = st\<lparr>current_input := Suc (current_input st)\<rparr> in
         if current_input st' = length (inputs tx) then check_fees tx st'
         else next_previous_transaction st')
      else handle_validate st (Some double_spend) [])"

text \<open>
  What the chain answers to a query: \<^verbatim>\<open>fetch_transaction\<close> with an error code and a
  transaction, \<^verbatim>\<open>fetch_last_depth\<close> and \<^verbatim>\<open>fetch_transaction_index\<close> with an error
  code and a depth, \<^verbatim>\<open>fetch_spend\<close> with an error code (the callbacks bound here take
  no more of it).
\<close>

datatype reply =
    reply_transaction error_code transaction
  | reply_depth error_code size_t
  | reply_spend error_code

text \<open>
  One step of the validator: the strand delivers the answer to the query in flight and
  the bound callback runs. There is no step when no query is in flight, nor when the
  answer is not one to that query.
\<close>

fun deliver ::
  "externals \<Rightarrow> pool_buffer \<Rightarrow> transaction \<Rightarrow> validate_transaction_state \<Rightarrow> reply
    \<Rightarrow> validate_transaction_state option" where
  "deliver ext pool tx st r =
     (let idle = st\<lparr>pending := None\<rparr> in
      case (pending st, r) of
        (Some pending_duplicate_check, reply_transaction ec _) \<Rightarrow>
          Some (handle_duplicate_check pool tx idle ec)
      | (Some pending_last_depth, reply_depth ec last_depth) \<Rightarrow>
          Some (set_last_depth idle ec last_depth)
      | (Some pending_tx_index, reply_depth ec parent_depth) \<Rightarrow>
          Some (previous_tx_index ext pool tx idle ec parent_depth)
      | (Some (pending_previous_tx parent_depth), reply_transaction ec previous_tx) \<Rightarrow>
          Some (handle_previous_tx ext tx idle ec previous_tx parent_depth)
      | (Some pending_spend, reply_spend ec) \<Rightarrow>
          Some (check_double_spend tx idle ec)
      | _ \<Rightarrow> None)"

text \<open>A run: the answers delivered one after the other, from a given state.\<close>

fun deliver_all ::
  "externals \<Rightarrow> pool_buffer \<Rightarrow> transaction \<Rightarrow> validate_transaction_state \<Rightarrow> reply list
    \<Rightarrow> validate_transaction_state option" where
  "deliver_all ext pool tx st [] = Some st"
| "deliver_all ext pool tx st (r # rs) =
     (case deliver ext pool tx st r of
        None \<Rightarrow> None
      | Some st' \<Rightarrow> deliver_all ext pool tx st' rs)"

text \<open>
  The step relation of the validator, and which answers belong to which query: the
  chain answers every query it is asked, with an answer of the query's kind and
  otherwise arbitrary.
\<close>

inductive validator_step ::
  "externals \<Rightarrow> pool_buffer \<Rightarrow> transaction \<Rightarrow> validate_transaction_state
    \<Rightarrow> validate_transaction_state \<Rightarrow> bool" where
  "deliver ext pool tx st r = Some st' \<Longrightarrow> validator_step ext pool tx st st'"

fun answers :: "callback \<Rightarrow> reply \<Rightarrow> bool" where
  "answers pending_duplicate_check (reply_transaction ec found) = True"
| "answers pending_last_depth (reply_depth ec last_depth) = True"
| "answers pending_tx_index (reply_depth ec parent_depth) = True"
| "answers (pending_previous_tx parent_depth) (reply_transaction ec previous_tx) = True"
| "answers pending_spend (reply_spend ec) = True"
| "answers q r = False"

text \<open>
  What holds of the validator between callbacks: once no query is in flight the handler
  has been invoked once; while one is, it has not been invoked, the transaction has
  inputs, and from the first \<^verbatim>\<open>fetch_transaction_index\<close> on \<^verbatim>\<open>current_input_\<close> lies
  inside \<^verbatim>\<open>tx_.inputs\<close>.
\<close>

definition validator_invariant :: "transaction \<Rightarrow> validate_transaction_state \<Rightarrow> bool" where
  "validator_invariant tx st =
     (case pending st of
        None \<Rightarrow> length (handled st) = 1
      | Some q \<Rightarrow>
          handled st = [] \<and> inputs tx \<noteq> [] \<and>
          (q = pending_duplicate_check \<or> q = pending_last_depth \<or>
           current_input st < length (inputs tx)))"

text \<open>
  An upper bound on the number of steps a state still has before it: nothing once no
  query is in flight, three per input that remains.
\<close>

definition remaining_steps :: "transaction \<Rightarrow> validate_transaction_state \<Rightarrow> nat" where
  "remaining_steps tx st =
     (case pending st of
        None \<Rightarrow> 0
      | Some pending_duplicate_check \<Rightarrow> 3 * length (inputs tx) + 2
      | Some pending_last_depth \<Rightarrow> 3 * length (inputs tx) + 1
      | Some pending_tx_index \<Rightarrow> 3 * (length (inputs tx) - current_input st)
      | Some (pending_previous_tx _) \<Rightarrow> 3 * (length (inputs tx) - current_input st) - 1
      | Some pending_spend \<Rightarrow> 3 * (length (inputs tx) - current_input st) - 2)"

section \<open>Concrete instances\<close>

text \<open>
  Values at which the statements of the later sections are evaluated. First the
  opcode values of the protocol's script encoding, the bytes that the operations of a
  parsed script carry: \<^verbatim>\<open>op_1 .. op_16\<close> are \<open>0x51 .. 0x60\<close> (\<open>81 .. 96\<close>), and the
  four signature opcodes are \<open>0xac .. 0xaf\<close>.
\<close>

definition protocol_opcodes :: opcode_values where
  "protocol_opcodes =
     \<lparr>checksig = 172, checksigverify = 173, checkmultisig = 174, checkmultisigverify = 175,
      op_1 = 81, op_16 = 96\<rparr>"

text \<open>
  Stand-ins for the library functions: a script interpreter that accepts, a hash that
  tells transactions apart by their lock time, no pay-to-script-hash outputs.
\<close>

definition example_externals :: externals where
  "example_externals =
     \<lparr>hash_transaction = (\<lambda>tx. replicate 32 (ucast (locktime tx))),
      save_script_size = length,
      run = (\<lambda>output_script' input_script' tx input_index bip16_enabled. True),
      is_script_hash = (\<lambda>s. False),
      parse_script = (\<lambda>bytes. []),
      bip16_switchover_timestamp = 1333238400\<rparr>"

text \<open>A transaction that spends output \<open>0\<close> of the transaction with hash \<open>02..02\<close>.\<close>

definition example_tx :: transaction where
  "example_tx =
     \<lparr>version = 1, locktime = 0,
      inputs = [\<lparr>previous_output = \<lparr>hash = replicate 32 2, index = 0\<rparr>,
                 input_script = [], sequence = - 1\<rparr>],
      outputs = [\<lparr>value' = 1000, output_script = []\<rparr>]\<rparr>"

text \<open>
  An instance of \<open>target_encoding\<close>: the compact format of the protocol, which
  \<^verbatim>\<open>big_number\<close> reads and writes through the MPI format of its big-integer library.
  The first byte of a compact value is the number of bytes of the number; the other
  three are its leading bytes, most significant first, the top bit being the sign.
  The constants are those of the protocol: \<open>max_bits = 0x1d00ffff\<close> and the target it
  encodes, \<open>65535 * 2^208\<close>.
\<close>

definition be_value :: "byte list \<Rightarrow> nat" where
  "be_value bytes = foldl (\<lambda>acc b. 256 * acc + unat b) 0 bytes"

function be_bytes :: "nat \<Rightarrow> byte list" where
  "be_bytes n = (if n = 0 then [] else be_bytes (n div 256) @ [word_of_nat (n mod 256)])"
  by pat_completeness auto
termination
  by (relation "measure id") auto

definition protocol_set_compact :: "uint32_t \<Rightarrow> int" where
  "protocol_set_compact c =
     (let size = unat (drop_bit 24 c);
          number_repr = take size
            ([ucast (drop_bit 16 c), ucast (drop_bit 8 c), ucast c] @ replicate (size - 3) 0)
      in case number_repr of
           [] \<Rightarrow> 0
         | b # bs \<Rightarrow>
             let magnitude = int (be_value (take_bit 7 b # bs)) in
             if bit b 7 then - magnitude else magnitude)"

definition protocol_compact :: "int \<Rightarrow> uint32_t" where
  "protocol_compact n =
     (let magnitude = be_bytes (nat \<bar>n\<bar>);
          padded = (case magnitude of [] \<Rightarrow> [] | b # bs \<Rightarrow> if bit b 7 then 0 # b # bs else b # bs);
          number_repr = (case padded of [] \<Rightarrow> [] | b # bs \<Rightarrow> (if n < 0 then set_bit 7 b else b) # bs);
          size = length number_repr
      in push_bit 24 (word_of_nat size)
         OR (if size \<ge> 1 then push_bit 16 (ucast (number_repr ! 0)) else 0)
         OR (if size \<ge> 2 then push_bit 8 (ucast (number_repr ! 1)) else 0)
         OR (if size \<ge> 3 then ucast (number_repr ! 2) else 0))"

definition protocol_encoding :: target_encoding where
  "protocol_encoding =
     \<lparr>set_compact = protocol_set_compact, compact = protocol_compact,
      max_target = 0xFFFF0000000000000000000000000000000000000000000000000000,
      max_bits = 0x1d00ffff\<rparr>"


text \<open>
  A chain in which the previous block has the target \<open>4096\<close>, the last interval took
  \<open>100\<close> seconds, and the only transaction on record is \<open>example_parent\<close>, at depth
  \<open>5\<close>, with a single output of \<open>3000\<close> that nothing has spent.
\<close>

definition example_parent :: transaction where
  "example_parent =
     \<lparr>version = 1, locktime = 7,
      inputs = [\<lparr>previous_output = \<lparr>hash = replicate 32 9, index = 0\<rparr>,
                 input_script = [], sequence = - 1\<rparr>],
      outputs = [\<lparr>value' = 3000, output_script = []\<rparr>]\<rparr>"

definition example_view :: chain_view where
  "example_view =
     \<lparr>previous_block_bits = 0x03001000,
      actual_timespan = (\<lambda>interval. 100),
      transaction_exists = (\<lambda>tx_hash. tx_hash = replicate 32 2),
      is_output_spent = (\<lambda>outpoint. False),
      is_output_spent_within = (\<lambda>outpoint index_in_parent input_index. False),
      fetch_transaction =
        (\<lambda>tx_hash. if tx_hash = replicate 32 2 then Some (example_parent, 5) else None)\<rparr>"

text \<open>
  A coinbase transaction, a transaction that names output \<open>1\<close> of \<open>example_parent\<close>
  (which has output \<open>0\<close> only), and two blocks at the head of which the coinbase
  transaction stands.
\<close>

definition example_coinbase :: transaction where
  "example_coinbase =
     \<lparr>version = 1, locktime = 1,
      inputs = [\<lparr>previous_output = \<lparr>hash = replicate 32 0, index = - 1\<rparr>,
                 input_script = [\<lparr>code = 0, data = []\<rparr>, \<lparr>code = 0, data = []\<rparr>],
                 sequence = - 1\<rparr>],
      outputs = [\<lparr>value' = 5000000000, output_script = []\<rparr>]\<rparr>"

definition example_overrun_tx :: transaction where
  "example_overrun_tx =
     \<lparr>version = 1, locktime = 3,
      inputs = [\<lparr>previous_output = \<lparr>hash = replicate 32 2, index = 1\<rparr>,
                 input_script = [], sequence = - 1\<rparr>],
      outputs = [\<lparr>value' = 10, output_script = []\<rparr>]\<rparr>"

definition example_block :: block where
  "example_block =
     \<lparr>block_version = 1, previous_block_hash = replicate 32 8, merkle = replicate 32 0,
      timestamp = 1333238500, bits = 0x03001000, nonce = 0,
      transactions = [example_coinbase, example_tx]\<rparr>"

definition example_overrun_block :: block where
  "example_overrun_block = example_block\<lparr>transactions := [example_coinbase, example_overrun_tx]\<rparr>"

text \<open>
  A block whose only transaction has the hash \<open>02..02\<close>, which \<open>example_view\<close> has on
  record with an unspent output.
\<close>

definition example_duplicate_block :: block where
  "example_duplicate_block = example_block\<lparr>transactions := [example_coinbase\<lparr>locktime := 2\<rparr>]\<rparr>"

section \<open>The concrete instances, evaluated\<close>

lemma count_script_sigops_Nil: "count_script_sigops oc [] accurate = 0"
  by (simp add: count_script_sigops_def)

lemma example_block_transactions:
  "transactions example_block = [example_coinbase, example_tx]"
  by (simp add: example_block_def)

lemma example_externals_simps:
  "run example_externals out_script in_script tx i bip16"
  "\<not> is_script_hash example_externals s"
  "hash_transaction example_externals tx = replicate 32 (ucast (locktime tx))"
  "save_script_size example_externals s = length s"
  by (simp_all add: example_externals_def)

lemma example_view_simps:
  "fetch_transaction example_view (replicate 32 2) = Some (example_parent, 5)"
  "\<not> is_output_spent_within example_view outpoint index_in_parent input_index"
  "\<not> is_output_spent example_view outpoint"
  "transaction_exists example_view tx_hash \<longleftrightarrow> tx_hash = replicate 32 2"
  by (simp_all add: example_view_def)

lemma example_parent_simps:
  "\<not> is_coinbase example_parent"
  "outputs example_parent = [\<lparr>value' = 3000, output_script = []\<rparr>]"
  by (simp_all add: is_coinbase_def example_parent_def previous_output_is_null_def)

lemma example_tx_simps:
  "inputs example_tx = [\<lparr>previous_output = \<lparr>hash = replicate 32 2, index = 0\<rparr>,
     input_script = [], sequence = - 1\<rparr>]"
  "outputs example_tx = [\<lparr>value' = 1000, output_script = []\<rparr>]"
  "locktime example_tx = 0"
  by (simp_all add: example_tx_def)

lemma example_tx_basic_checks: "basic_checks example_externals [] example_tx = None"
  by (simp add: basic_checks_def check_transaction_def example_tx_simps max_money_def
      is_coinbase_def previous_output_is_null_def is_standard_def fetch_def)

lemma example_tx_start:
  "start example_externals [] example_tx = initial_state\<lparr>pending := Some pending_duplicate_check\<rparr>"
  by (simp add: start_def example_tx_basic_checks)

section \<open>The context-free transaction check\<close>

lemma unat_max_money: "unat max_money = 2100000000000000"
  by (simp add: max_money_def)

lemma check_output_values_sum:
  "check_output_values tot outs = None \<Longrightarrow> unat tot \<le> unat max_money \<Longrightarrow>
     (\<forall>output' \<in> set outs. unat (value' output') \<le> unat max_money) \<and>
     unat tot + (\<Sum>output' \<leftarrow> outs. unat (value' output')) \<le> unat max_money"
proof (induction outs arbitrary: tot)
  case Nil
  then show ?case by simp
next
  case (Cons output' rest)
  from Cons.prems(1) have v: "\<not> value' output' > max_money"
    by (auto split: if_splits)
  then have vle: "unat (value' output') \<le> unat max_money"
    by (simp add: word_le_nat_alt not_less)
  from Cons.prems(1) v have t: "\<not> tot + value' output' > max_money"
    and rest: "check_output_values (tot + value' output') rest = None"
    by (auto simp: Let_def split: if_splits)
  have "unat tot + unat (value' output') < 2 ^ 64"
    using vle Cons.prems(2) by (simp add: unat_max_money)
  then have add: "unat (tot + value' output') = unat tot + unat (value' output')"
    by (simp add: unat_add_lem [THEN iffD1])
  from t have "unat (tot + value' output') \<le> unat max_money"
    by (simp add: word_le_nat_alt not_less)
  from Cons.IH [OF rest this] add vle show ?case
    by simp
qed

text \<open>
  C5. A transaction that \<^verbatim>\<open>check_transaction\<close> accepts has at least one input and at
  least one output, every output value is at most \<open>max_money\<close>, and the sum of all
  output values, taken in the natural numbers, is at most \<open>max_money\<close>.
\<close>

theorem check_transaction_ok_bounds:
  assumes "check_transaction ext tx = None"
  shows "1 \<le> length (inputs tx) \<and> 1 \<le> length (outputs tx) \<and>
    (\<forall>output' \<in> set (outputs tx). unat (value' output') \<le> unat max_money) \<and>
    (\<Sum>output' \<leftarrow> outputs tx. unat (value' output')) \<le> unat max_money"
proof -
  from assms have ne: "inputs tx \<noteq> []" "outputs tx \<noteq> []"
    and outs: "check_output_values 0 (outputs tx) = None"
    by (auto simp: check_transaction_def split: if_splits option.splits)
  from check_output_values_sum [OF outs] have
    "(\<forall>output' \<in> set (outputs tx). unat (value' output') \<le> unat max_money) \<and>
     (\<Sum>output' \<leftarrow> outputs tx. unat (value' output')) \<le> unat max_money"
    by simp
  moreover from ne have "1 \<le> length (inputs tx)" "1 \<le> length (outputs tx)"
    by (simp_all add: Suc_le_eq)
  ultimately show ?thesis by blast
qed

theorem check_transaction_ok_bounds_witness:
  "check_transaction example_externals example_tx = None \<and>
   1 \<le> length (inputs example_tx) \<and> 1 \<le> length (outputs example_tx) \<and>
   (\<Sum>output' \<leftarrow> outputs example_tx. unat (value' output')) \<le> unat max_money"
proof -
  have ok: "check_transaction example_externals example_tx = None"
    by (simp add: check_transaction_def example_tx_def max_money_def is_coinbase_def
        previous_output_is_null_def)
  from check_transaction_ok_bounds [OF ok] ok show ?thesis by simp
qed

section \<open>Signature operations of a multi-signature check\<close>

lemma count_script_sigops_loop_append:
  "count_script_sigops_loop oc accurate st (xs @ ys) =
     count_script_sigops_loop oc accurate (count_script_sigops_loop oc accurate st xs) ys"
  by (induction xs arbitrary: st) simp_all

lemma count_script_sigops_snoc:
  "count_script_sigops oc (ops @ [op]) accurate =
     fst (count_script_sigops_step oc accurate (count_script_sigops_loop oc accurate (0, 0) ops) op)"
  by (simp add: count_script_sigops_def count_script_sigops_loop_append)

lemma last_number_seen_snoc:
  "last_number_seen oc (ops @ [op]) =
     (if raw_code (op_1 oc) \<le> raw_code (code op) \<and> raw_code (code op) \<le> raw_code (op_16 oc)
      then ucast (raw_code (code op))
      else last_number_seen oc ops)"
  by (simp add: last_number_seen_def)

lemma last_number_of_loop:
  "snd (count_script_sigops_loop oc accurate (total_sigs, 0) ops) = last_number_seen oc ops"
proof (induction ops rule: rev_induct)
  case Nil
  then show ?case by (simp add: last_number_seen_def)
next
  case (snoc op ops)
  then show ?case
    by (simp add: count_script_sigops_loop_append last_number_seen_snoc
        count_script_sigops_step_def Let_def)
qed

text \<open>
  What a \<^verbatim>\<open>checkmultisig\<close> or \<^verbatim>\<open>checkmultisigverify\<close> adds, for every assignment of
  opcode values in which these two differ from \<^verbatim>\<open>checksig\<close> and \<^verbatim>\<open>checksigverify\<close>:
  with \<open>accurate\<close> set and a number opcode seen, the raw code of the most recent one;
  otherwise \<open>20\<close>.
\<close>

lemma checkmultisig_adds_last_number:
  assumes distinct: "checkmultisig oc \<noteq> checksig oc" "checkmultisig oc \<noteq> checksigverify oc"
      "checkmultisigverify oc \<noteq> checksig oc" "checkmultisigverify oc \<noteq> checksigverify oc"
    and op: "code op = checkmultisig oc \<or> code op = checkmultisigverify oc"
  shows "count_script_sigops oc (ops @ [op]) accurate =
     count_script_sigops oc ops accurate +
       (if accurate \<and> last_number_seen oc ops \<noteq> 0 then last_number_seen oc ops else 20)"
proof -
  let ?st = "count_script_sigops_loop oc accurate (0, 0) ops"
  have last: "snd ?st = last_number_seen oc ops"
    by (rule last_number_of_loop)
  have notsig: "code op \<noteq> checksig oc" "code op \<noteq> checksigverify oc"
    using op distinct by auto
  have step: "fst (count_script_sigops_step oc accurate ?st op) =
      (if accurate \<and> snd ?st \<noteq> 0 then fst ?st + snd ?st else fst ?st + 20)"
    using op notsig by (auto simp: count_script_sigops_step_def Let_def)
  have c: "count_script_sigops oc ops accurate = fst ?st"
    by (simp add: count_script_sigops_def)
  show ?thesis
    unfolding count_script_sigops_snoc step c last by simp
qed

text \<open>
  C1. With the opcode values of the protocol, \<^verbatim>\<open>op_3\<close> has the raw code \<open>83\<close>. On the
  operations \<^verbatim>\<open>op_3 checkmultisig\<close>, \<^verbatim>\<open>count_script_sigops\<close> with \<open>accurate\<close> set
  returns \<open>83\<close>: \<^verbatim>\<open>op_3\<close> alone counts \<open>0\<close>, and the \<^verbatim>\<open>checkmultisig\<close> adds
  \<^verbatim>\<open>last_number\<close>, which holds the raw code \<open>83\<close> of \<^verbatim>\<open>op_3\<close> and not the number
  \<open>3\<close>. Without \<open>accurate\<close> the count is \<open>20\<close>.
\<close>

theorem count_script_sigops_adds_raw_code:
  "count_script_sigops protocol_opcodes [\<lparr>code = 83, data = []\<rparr>] True = 0 \<and>
   last_number_seen protocol_opcodes [\<lparr>code = 83, data = []\<rparr>] = 83 \<and>
   count_script_sigops protocol_opcodes
     [\<lparr>code = 83, data = []\<rparr>, \<lparr>code = 174, data = []\<rparr>] True = 83 \<and>
   count_script_sigops protocol_opcodes
     [\<lparr>code = 83, data = []\<rparr>, \<lparr>code = 174, data = []\<rparr>] False = 20"
  by (simp add: count_script_sigops_def count_script_sigops_step_def last_number_seen_def
      protocol_opcodes_def raw_code_def)

section \<open>Proof of work and retargeting: properties\<close>

lemma big_number_div_nonneg: "0 \<le> a \<Longrightarrow> 0 < b \<Longrightarrow> big_number_div a b = a div b"
  by (simp add: big_number_div_def sgn_if)

text \<open>
  C3 (as amended). \<^verbatim>\<open>check_proof_of_work\<close> returns true exactly when the decoded
  target is positive and at most \<open>max_target\<close> and the hash, read as an unsigned
  integer, is at most the target.
\<close>

theorem check_proof_of_work_iff:
  "check_proof_of_work enc block_hash bits' \<longleftrightarrow>
     0 < set_compact enc bits' \<and> set_compact enc bits' \<le> max_target enc \<and>
     set_hash block_hash \<le> set_compact enc bits'"
  by (auto simp: check_proof_of_work_def Let_def)

lemma protocol_set_compact_0: "protocol_set_compact 0 = 0"
  by (simp add: protocol_set_compact_def)

lemma protocol_set_compact_4096: "protocol_set_compact 0x03001000 = 4096"
  by (simp add: protocol_set_compact_def be_value_def)

lemma set_hash_zero: "set_hash (replicate n 0) = 0"
  by (induction n) simp_all

theorem check_proof_of_work_iff_witness:
  "check_proof_of_work protocol_encoding (5 # replicate 31 0) 0x03001000 \<and>
   \<not> check_proof_of_work protocol_encoding (replicate 32 0) 0"
  using check_proof_of_work_iff [of protocol_encoding "5 # replicate 31 0" "0x03001000"]
    check_proof_of_work_iff [of protocol_encoding "replicate 32 0" 0]
  by (simp add: protocol_encoding_def protocol_set_compact_4096 protocol_set_compact_0
      set_hash_zero)

text \<open>
  The zero hash with the compact value \<open>0\<close>: the target decodes to \<open>0\<close>, so the hash
  is at most the target and the target at most \<open>max_target\<close>, and
  \<^verbatim>\<open>check_proof_of_work\<close> returns false on \<^verbatim>\<open>target <= 0\<close>.
\<close>

theorem check_proof_of_work_zero_counterexample:
  "\<not> check_proof_of_work protocol_encoding (replicate 32 0) 0 \<and>
   length (replicate 32 (0 :: byte)) = 32 \<and>
   set_hash (replicate 32 0) \<le> set_compact protocol_encoding 0 \<and>
   set_compact protocol_encoding 0 \<le> max_target protocol_encoding"
  by (simp add: check_proof_of_work_def protocol_encoding_def protocol_set_compact_0
      set_hash_zero)

lemma range_constraint_clamp:
  "minimum \<le> maximum \<Longrightarrow> range_constraint v minimum maximum = max minimum (min maximum v)"
  by (auto simp: range_constraint_def)

lemma clamped_timespan:
  "uint (range_constraint actual (target_timespan div 4) (target_timespan * 4)) =
     max (uint target_timespan div 4) (min (uint target_timespan * 4) (uint actual))"
proof -
  have c: "(target_timespan div 4 :: uint64_t) = 302400" "(target_timespan * 4 :: uint64_t) = 4838400"
    by (simp_all add: target_timespan_def)
  have "range_constraint actual 302400 4838400 = max 302400 (min 4838400 actual)"
    by (rule range_constraint_clamp) simp
  then have "uint (range_constraint actual 302400 4838400) =
      max 302400 (min 4838400 (uint actual))"
    by (simp add: max_def min_def word_le_def)
  then show ?thesis
    by (simp add: c) (simp add: target_timespan_def)
qed

text \<open>
  C4. \<^verbatim>\<open>work_required\<close> returns \<open>max_bits\<close> at depth \<open>0\<close>, the bits of the
  previous block at a depth that is no multiple of the readjustment interval, and at
  any other depth the compact encoding of the smaller of \<open>max_target\<close> and the
  previous target times the actual timespan, clamped between a quarter of the target
  timespan and four times it, divided by the target timespan, all in unbounded integers
  (the quotient is rounded towards zero, which for a target that is not negative is
  the floor).
\<close>

theorem work_required_cases:
  "(depth = 0 \<longrightarrow> work_required enc view depth = max_bits enc) \<and>
   (unat depth mod unat readjustment_interval \<noteq> 0 \<longrightarrow>
      work_required enc view depth = previous_block_bits view) \<and>
   (depth \<noteq> 0 \<and> unat depth mod unat readjustment_interval = 0 \<longrightarrow>
      work_required enc view depth =
        compact enc
          (min (max_target enc)
             (big_number_div
                (set_compact enc (previous_block_bits view) *
                 max (uint target_timespan div 4)
                   (min (uint target_timespan * 4)
                      (uint (actual_timespan view readjustment_interval))))
                (uint target_timespan))))"
proof -
  have m: "depth mod readjustment_interval \<noteq> 0 \<longleftrightarrow> unat depth mod unat readjustment_interval \<noteq> 0"
    by (simp add: unat_mod_distrib [symmetric] unat_eq_0)
  have z: "depth = 0 \<Longrightarrow> unat depth mod unat readjustment_interval = 0"
    by simp
  show ?thesis
    using z
    by (auto simp: work_required_def m clamped_timespan Let_def min_def)
qed

theorem work_required_cases_witness:
  "work_required protocol_encoding example_view 0 = 0x1d00ffff \<and>
   work_required protocol_encoding example_view 2017 = 0x03001000 \<and>
   work_required protocol_encoding example_view 2016 = protocol_compact 1024"
  using work_required_cases [of 0 protocol_encoding example_view]
    work_required_cases [of 2017 protocol_encoding example_view]
    work_required_cases [of 2016 protocol_encoding example_view]
  by (simp add: protocol_encoding_def example_view_def readjustment_interval_def
      target_timespan_def protocol_set_compact_4096 big_number_div_def)


section \<open>Coinbase maturity in the memory-pool path\<close>

lemma unat_depth_difference:
  "unat ((last_depth :: size_t) - parent_depth) =
     (if parent_depth \<le> last_depth then unat last_depth - unat parent_depth
      else 2 ^ 64 - (unat parent_depth - unat last_depth))"
proof (cases "parent_depth \<le> last_depth")
  case True
  then show ?thesis by (simp add: unat_sub)
next
  case False
  then have lt: "unat last_depth < unat parent_depth"
    by (simp add: word_le_nat_alt)
  have b: "unat parent_depth < 2 ^ 64"
    using unsigned_less [of parent_depth] by simp
  have "unat (last_depth - parent_depth) = (unat last_depth + 2 ^ 64 - unat parent_depth) mod 2 ^ 64"
    by (simp add: unat_sub_if' lt) (use lt b in simp)
  moreover have "unat last_depth + 2 ^ 64 - unat parent_depth < 2 ^ 64"
    using lt b by simp
  ultimately show ?thesis using False lt b by simp
qed


text \<open>
  C10 (as amended). In \<^verbatim>\<open>validate_transaction::connect_input\<close>, for an input \<open>i\<close>
  of \<open>tx\<close> and a coinbase parent whose output passes every other check, the call succeeds exactly when the unsigned
  difference \<^verbatim>\<open>last_block_depth - parent_depth\<close> is at least \<open>100\<close>. That difference
  is \<open>last_block_depth - parent_depth\<close> when \<open>parent_depth \<le> last_block_depth\<close> and
  wraps to \<open>2^64 - (parent_depth - last_block_depth)\<close> otherwise. So the check fails
  exactly when \<open>parent_depth \<le> last_block_depth\<close> and the difference is below \<open>100\<close>,
  or \<open>parent_depth > last_block_depth\<close> and \<open>parent_depth - last_block_depth\<close> exceeds
  \<open>2^64 - 100\<close>; for every other \<open>parent_depth > last_block_depth\<close> it passes.
\<close>

theorem coinbase_maturity_wraps:
  assumes coinbase: "is_coinbase previous_tx"
    and inside: "unat (index (previous_output (inputs tx ! i))) < length (outputs previous_tx)"
    and out: "out = outputs previous_tx ! unat (index (previous_output (inputs tx ! i)))"
    and money: "value' out \<le> max_money"
    and script: "run ext (output_script out) (input_script (inputs tx ! i)) tx i False"
    and total: "value_in' + value' out \<le> max_money"
    and input: "i < length (inputs tx)"
  shows "(fst (validate_transaction_connect_input ext tx i previous_tx parent_depth
              last_depth value_in') \<longleftrightarrow>
            \<not> unat (last_depth - parent_depth) < 100) \<and>
         unat (last_depth - parent_depth) =
           (if parent_depth \<le> last_depth then unat last_depth - unat parent_depth
            else 2 ^ 64 - (unat parent_depth - unat last_depth)) \<and>
         (\<not> fst (validate_transaction_connect_input ext tx i previous_tx parent_depth
              last_depth value_in') \<longleftrightarrow>
            parent_depth \<le> last_depth \<and> unat last_depth - unat parent_depth < 100 \<or>
            last_depth < parent_depth \<and> 2 ^ 64 - 100 < unat parent_depth - unat last_depth)"
proof -
  have run: "fst (validate_transaction_connect_input ext tx i previous_tx parent_depth
      last_depth value_in') \<longleftrightarrow> \<not> unat (last_depth - parent_depth) < 100"
    using coinbase inside money script total
    by (simp add: validate_transaction_connect_input_def Let_def out [symmetric]
        coinbase_maturity_def not_less [symmetric])
  have b: "unat parent_depth < 2 ^ 64" "unat last_depth < 2 ^ 64"
    using unsigned_less [of parent_depth] unsigned_less [of last_depth] by simp_all
  have "unat (last_depth - parent_depth) < 100 \<longleftrightarrow>
      parent_depth \<le> last_depth \<and> unat last_depth - unat parent_depth < 100 \<or>
      last_depth < parent_depth \<and> 2 ^ 64 - 100 < unat parent_depth - unat last_depth"
    using b by (auto simp: unat_depth_difference word_le_nat_alt word_less_nat_alt)
  with run show ?thesis
    by (simp only: unat_depth_difference [of last_depth parent_depth]) blast
qed

theorem coinbase_maturity_wraps_witness:
  "is_coinbase example_coinbase \<and>
   fst (validate_transaction_connect_input example_externals example_tx 0 example_coinbase
          6 5 0) \<and>
   unat ((5 :: size_t) - 6) = 2 ^ 64 - 1 \<and>
   \<not> fst (validate_transaction_connect_input example_externals example_tx 0 example_coinbase
          6 105 0)"
proof -
  have c: "is_coinbase example_coinbase"
    by (simp add: is_coinbase_def example_coinbase_def previous_output_is_null_def null_hash_def)
  have h: "unat (index (previous_output (inputs example_tx ! 0))) < length (outputs example_coinbase)"
    "value' (outputs example_coinbase ! unat (index (previous_output (inputs example_tx ! 0))))
       \<le> max_money"
    "run example_externals
       (output_script (outputs example_coinbase ! unat (index (previous_output (inputs example_tx ! 0)))))
       (input_script (inputs example_tx ! 0)) example_tx 0 False"
    "0 + value' (outputs example_coinbase ! unat (index (previous_output (inputs example_tx ! 0))))
       \<le> max_money"
    by (simp_all add: example_tx_def example_coinbase_def max_money_def example_externals_def)
  have i: "0 < length (inputs example_tx)"
    by (simp add: example_tx_def)
  from coinbase_maturity_wraps [OF c h(1) refl h(2) h(3) h(4) i, of 6 5]
    coinbase_maturity_wraps [OF c h(1) refl h(2) h(3) h(4) i, of 6 105]
  show ?thesis using c by simp
qed

text \<open>
  With \<open>last_block_depth = 0\<close> and \<open>parent_depth = 2^64 - 1\<close> the parent is deeper
  than the last block, the difference wraps to \<open>1\<close>, and the check fails.
\<close>

theorem coinbase_maturity_wraps_counterexample:
  "is_coinbase example_coinbase \<and> (0 :: size_t) < 0xFFFFFFFFFFFFFFFF \<and>
   unat ((0 :: size_t) - 0xFFFFFFFFFFFFFFFF) < coinbase_maturity \<and>
   \<not> fst (validate_transaction_connect_input example_externals example_tx 0 example_coinbase
          0xFFFFFFFFFFFFFFFF 0 0)"
  by (simp add: validate_transaction_connect_input_def is_coinbase_def example_coinbase_def
      previous_output_is_null_def null_hash_def example_tx_def max_money_def
      coinbase_maturity_def word_less_nat_alt)

section \<open>The unchecked output index of the block path\<close>

lemma example_overrun_block_faults:
  "connect_block example_externals oc example_view 6 example_overrun_block =
     Inl out_of_range_access"
proof -
  have bip30: "list_all (not_duplicate_or_spent example_externals example_view)
      (transactions example_overrun_block)"
    by (simp add: example_overrun_block_def example_block_def not_duplicate_or_spent_def
        example_externals_def example_view_def example_coinbase_def example_overrun_tx_def)
  have sig: "tx_legacy_sigops_count oc example_overrun_tx = 0"
    by (simp add: tx_legacy_sigops_count_def example_overrun_tx_def count_script_sigops_Nil)
  have input: "validate_block_connect_input example_externals oc example_view 6
      example_overrun_block 1 example_overrun_tx 0 (0, 0) = Inl out_of_range_access"
    by (simp add: validate_block_connect_input_def example_overrun_tx_def example_view_def
        example_parent_def)
  have inputs: "validate_inputs example_externals oc example_view 6 example_overrun_block
      example_overrun_tx 1 (0, 0) = Inl out_of_range_access"
    using input by (simp add: validate_inputs_def example_overrun_tx_def)
  have txs: "transactions example_overrun_block = [example_coinbase, example_overrun_tx]"
    by (simp add: example_overrun_block_def example_block_def)
  have "connect_transactions example_externals oc example_view 6 example_overrun_block (0, 0) 1
      (drop 1 (transactions example_overrun_block)) = Inl out_of_range_access"
    using inputs
    by (simp add: txs sig max_block_script_sig_operations_def max_block_size_def)
  then show ?thesis
    using bip30 by (simp add: connect_block_def)
qed

text \<open>
  C9. For an input \<open>i\<close> of \<open>tx\<close>: when the parent transaction is found and the input's \<^verbatim>\<open>previous_output.index\<close>
  is not below the number of the parent's outputs, \<^verbatim>\<open>validate_block::connect_input\<close>
  reads the parent's outputs past their end, whereas
  \<^verbatim>\<open>validate_transaction::connect_input\<close> returns false on its bounds check; and there
  is a block, \<open>example_overrun_block\<close>, on which \<^verbatim>\<open>connect_block\<close> performs that read.
\<close>

theorem connect_input_index_unchecked:
  assumes fetched: "fetch_transaction view (hash (previous_output (inputs tx ! i))) =
      Some (previous_tx, previous_depth)"
    and beyond: "length (outputs previous_tx) \<le> unat (index (previous_output (inputs tx ! i)))"
    and input: "i < length (inputs tx)"
  shows "validate_block_connect_input ext oc view depth current_block index_in_parent tx i st =
           Inl out_of_range_access \<and>
         validate_transaction_connect_input ext tx i previous_tx parent_depth last_depth value_in' =
           (False, value_in') \<and>
         connect_block example_externals oc example_view 6 example_overrun_block =
           Inl out_of_range_access"
  using assms
  by (simp add: validate_block_connect_input_def validate_transaction_connect_input_def
      example_overrun_block_faults)

theorem connect_input_index_unchecked_witness:
  "0 < length (inputs example_overrun_tx) \<and>
   fetch_transaction example_view (hash (previous_output (inputs example_overrun_tx ! 0))) =
     Some (example_parent, 5) \<and>
   length (outputs example_parent) \<le> unat (index (previous_output (inputs example_overrun_tx ! 0))) \<and>
   validate_block_connect_input example_externals protocol_opcodes example_view 6
     example_overrun_block 1 example_overrun_tx 0 (0, 0) = Inl out_of_range_access \<and>
   validate_transaction_connect_input example_externals example_overrun_tx 0 example_parent 5 6 0 =
     (False, 0) \<and>
   connect_block example_externals protocol_opcodes example_view 6 example_overrun_block =
     Inl out_of_range_access"
proof -
  have f: "fetch_transaction example_view (hash (previous_output (inputs example_overrun_tx ! 0))) =
      Some (example_parent, 5)"
    by (simp add: example_view_def example_overrun_tx_def)
  have b: "length (outputs example_parent) \<le>
      unat (index (previous_output (inputs example_overrun_tx ! 0)))"
    by (simp add: example_parent_def example_overrun_tx_def)
  have i: "0 < length (inputs example_overrun_tx)"
    by (simp add: example_overrun_tx_def)
  from connect_input_index_unchecked [OF f b i, of example_externals protocol_opcodes 6
      example_overrun_block 1 "(0, 0)" 5 6 0] f b i
  show ?thesis by simp
qed


section \<open>The coinbase value of a connected block\<close>

lemma block_value_le: "unat (block_value depth) \<le> 5000000000"
proof -
  have "unat (block_value depth) = drop_bit (unat depth div 210000) (unat (5000000000 :: uint64_t))"
    by (simp only: block_value_def unat_drop_bit_eq)
  also have "\<dots> = 5000000000 div 2 ^ (unat depth div 210000)"
    by (simp add: drop_bit_eq_div)
  also have "\<dots> \<le> 5000000000"
    by (rule div_le_dividend)
  finally show ?thesis .
qed

lemma tally_fees_bound:
  "tally_fees tx v total_fees = (True, total_fees') \<Longrightarrow> total_fees' \<le> max_money"
  by (auto simp: tally_fees_def Let_def split: if_splits)

lemma connect_transactions_fees_bound:
  "connect_transactions ext oc view depth blk st tx_index txs = Inr (Inr (fees, total_sigops)) \<Longrightarrow>
     fst st \<le> max_money \<Longrightarrow> fees \<le> max_money"
proof (induction txs arbitrary: st tx_index)
  case Nil
  then show ?case by auto
next
  case (Cons tx rest)
  from Cons.prems(1) obtain value_in' total_sigops' fees' where
    t: "tally_fees tx value_in' (fst st) = (True, fees')"
    and r: "connect_transactions ext oc view depth blk (fees', total_sigops') (Suc tx_index) rest =
      Inr (Inr (fees, total_sigops))"
    by (auto simp: Let_def split: if_splits sum.splits option.splits prod.splits bool.splits)
  from tally_fees_bound [OF t] have "fst (fees', total_sigops') \<le> max_money" by simp
  from Cons.IH [OF r this] show ?case .
qed

lemma subsidy_plus_fees:
  assumes "fees \<le> max_money"
  shows "unat (block_value depth + fees) = unat (block_value depth) + unat fees"
proof -
  from assms have "unat fees \<le> 2100000000000000"
    by (simp add: word_le_nat_alt max_money_def)
  with block_value_le [of depth] have "unat (block_value depth) + unat fees < 2 ^ 64"
    by simp
  then show ?thesis
    by (simp add: unat_add_lem [THEN iffD1])
qed

lemma unat_sum_list:
  "(\<Sum>x \<leftarrow> xs. unat (f x)) < 2 ^ 64 \<Longrightarrow>
     unat (sum_list (map f xs) :: uint64_t) = (\<Sum>x \<leftarrow> xs. unat (f x))"
proof (induction xs)
  case Nil
  then show ?case by simp
next
  case (Cons x xs)
  then have ih: "unat (sum_list (map f xs)) = (\<Sum>x \<leftarrow> xs. unat (f x))" by simp
  from Cons.prems have "unat (f x) + unat (sum_list (map f xs)) < 2 ^ 64"
    by (simp add: ih)
  then have "unat (f x + sum_list (map f xs)) = unat (f x) + unat (sum_list (map f xs))"
    by (simp add: unat_add_lem [THEN iffD1])
  then show ?case by (simp add: ih)
qed

lemma checked_total_output_value:
  assumes "check_transaction ext tx = None"
  shows "unat (total_output_value tx) = (\<Sum>output' \<leftarrow> outputs tx. unat (value' output'))"
proof -
  from assms have "check_output_values 0 (outputs tx) = None"
    by (auto simp: check_transaction_def split: if_splits option.splits)
  from check_output_values_sum [OF this]
  have "(\<Sum>output' \<leftarrow> outputs tx. unat (value' output')) \<le> unat max_money"
    by simp
  then have "(\<Sum>output' \<leftarrow> outputs tx. unat (value' output')) < 2 ^ 64"
    by (simp add: unat_max_money)
  from unat_sum_list [OF this] show ?thesis
    by (simp add: total_output_value_def)
qed

text \<open>
  C6. When \<^verbatim>\<open>connect_block\<close> returns success, its loop has run to the end with some
  accumulated \<open>fees\<close>, and the value of the first transaction's outputs is at most
  \<open>block_value depth + fees\<close>, with no wrap-around in that sum; where the first
  transaction has passed \<^verbatim>\<open>check_transaction\<close>, that value is the exact sum of its
  output values. Conversely, when the BIP 30 test lets the block through, the loop has
  run to the end with \<open>fees\<close> and the value of the first transaction's outputs
  exceeds \<open>block_value depth + fees\<close>, \<^verbatim>\<open>connect_block\<close> returns
  \<^verbatim>\<open>coinbase_too_large\<close>.
\<close>

theorem coinbase_value_bound:
  "(connect_block ext oc view depth blk = Inr None \<longrightarrow>
      (\<exists>fees. accumulated_fees ext oc view depth blk = Some fees \<and>
         transactions blk \<noteq> [] \<and>
         unat (total_output_value (transactions blk ! 0))
           \<le> unat (block_value depth) + unat fees \<and>
         (check_transaction ext (transactions blk ! 0) = None \<longrightarrow>
            (\<Sum>output' \<leftarrow> outputs (transactions blk ! 0). unat (value' output'))
              \<le> unat (block_value depth) + unat fees))) \<and>
   (passes_bip30 ext view depth blk \<and> accumulated_fees ext oc view depth blk = Some fees \<and>
      transactions blk \<noteq> [] \<and>
      unat (block_value depth) + unat fees < unat (total_output_value (transactions blk ! 0)) \<longrightarrow>
      connect_block ext oc view depth blk = Inr (Some coinbase_too_large))"
proof (intro conjI impI)
  assume ok: "connect_block ext oc view depth blk = Inr None"
  then obtain fees total_sigops where
    ct: "connect_transactions ext oc view depth blk (0, 0) 1 (drop 1 (transactions blk)) =
      Inr (Inr (fees, total_sigops))"
    and ne: "transactions blk \<noteq> []"
    and le: "\<not> total_output_value (transactions blk ! 0) > block_value depth + fees"
    by (auto simp: connect_block_def Let_def split: if_splits sum.splits prod.splits)
  from connect_transactions_fees_bound [OF ct] have "fees \<le> max_money"
    by (simp add: max_money_def)
  from le subsidy_plus_fees [OF this, of depth]
  have b: "unat (total_output_value (transactions blk ! 0)) \<le> unat (block_value depth) + unat fees"
    by (simp add: word_less_nat_alt not_less)
  from ct have "accumulated_fees ext oc view depth blk = Some fees"
    by (simp add: accumulated_fees_def)
  with ne b show "\<exists>fees. accumulated_fees ext oc view depth blk = Some fees \<and>
         transactions blk \<noteq> [] \<and>
         unat (total_output_value (transactions blk ! 0))
           \<le> unat (block_value depth) + unat fees \<and>
         (check_transaction ext (transactions blk ! 0) = None \<longrightarrow>
            (\<Sum>output' \<leftarrow> outputs (transactions blk ! 0). unat (value' output'))
              \<le> unat (block_value depth) + unat fees)"
    by (auto simp: checked_total_output_value)
next
  assume a: "passes_bip30 ext view depth blk \<and> accumulated_fees ext oc view depth blk = Some fees \<and>
      transactions blk \<noteq> [] \<and>
      unat (block_value depth) + unat fees < unat (total_output_value (transactions blk ! 0))"
  then obtain total_sigops where
    ct: "connect_transactions ext oc view depth blk (0, 0) 1 (drop 1 (transactions blk)) =
      Inr (Inr (fees, total_sigops))"
    by (auto simp: accumulated_fees_def split: sum.splits prod.splits)
  from connect_transactions_fees_bound [OF ct] have "fees \<le> max_money"
    by (simp add: max_money_def)
  from a subsidy_plus_fees [OF this, of depth]
  have "total_output_value (transactions blk ! 0) > block_value depth + fees"
    by (simp add: word_less_nat_alt)
  with a ct show "connect_block ext oc view depth blk = Inr (Some coinbase_too_large)"
    by (auto simp: connect_block_def passes_bip30_def)
qed


lemma example_tx_connects:
  "validate_inputs example_externals protocol_opcodes example_view depth example_block example_tx 1
     (0, 0) = Inr (Some (3000, 0))"
proof -
  have "validate_block_connect_input example_externals protocol_opcodes example_view depth
      example_block 1 example_tx 0 (0, 0) = Inr (Some (3000, 0))"
    by (simp add: validate_block_connect_input_def example_tx_simps example_view_simps
        example_parent_simps example_externals_simps script_hash_signature_operations_count_def
        count_script_sigops_Nil max_money_def)
  then show ?thesis
    by (simp add: validate_inputs_def example_tx_simps)
qed

lemma example_block_loop:
  "connect_transactions example_externals protocol_opcodes example_view depth example_block
     (0, 0) 1 (drop 1 (transactions example_block)) = Inr (Inr (2000, 0))"
proof -
  have sig: "tx_legacy_sigops_count protocol_opcodes example_tx = 0"
    by (simp add: tx_legacy_sigops_count_def example_tx_simps count_script_sigops_Nil)
  have fee: "tally_fees example_tx 3000 0 = (True, 2000)"
    by (simp add: tally_fees_def total_output_value_def example_tx_simps max_money_def)
  show ?thesis
    using example_tx_connects [of depth] fee
    by (simp add: example_block_transactions sig)
qed

lemma example_block_fees:
  "accumulated_fees example_externals protocol_opcodes example_view depth example_block = Some 2000"
  using example_block_loop [of depth] by (simp add: accumulated_fees_def)

lemma example_block_not_duplicate:
  "list_all (not_duplicate_or_spent example_externals example_view) (transactions example_block)"
  by (simp add: example_block_transactions not_duplicate_or_spent_def
      example_externals_simps example_view_simps example_coinbase_def example_tx_simps)

lemma example_block_passes_bip30:
  "passes_bip30 example_externals example_view depth example_block"
  by (simp add: passes_bip30_def example_block_not_duplicate)

lemma example_coinbase_value:
  "total_output_value (transactions example_block ! 0) = 5000000000"
  by (simp add: example_block_transactions total_output_value_def example_coinbase_def)

theorem coinbase_value_bound_witness:
  "connect_block example_externals protocol_opcodes example_view 6 example_block = Inr None \<and>
   accumulated_fees example_externals protocol_opcodes example_view 6 example_block = Some 2000 \<and>
   unat (total_output_value (transactions example_block ! 0)) \<le> unat (block_value 6) + 2000 \<and>
   unat (block_value 210000) + 2000 < unat (total_output_value (transactions example_block ! 0)) \<and>
   connect_block example_externals protocol_opcodes example_view 210000 example_block =
     Inr (Some coinbase_too_large)"
proof -
  have v6: "block_value 6 = 5000000000" and v210000: "block_value 210000 = 2500000000"
    by (simp_all add: block_value_def)
  have ne: "transactions example_block \<noteq> []"
    by (simp add: example_block_transactions)
  have ok: "connect_block example_externals protocol_opcodes example_view 6 example_block = Inr None"
    using example_block_loop [of 6]
    by (simp add: connect_block_def example_block_not_duplicate ne example_coinbase_value v6)
  have large: "unat (block_value 210000) + unat (2000 :: uint64_t)
      < unat (total_output_value (transactions example_block ! 0))"
    by (simp add: v210000 example_coinbase_value)
  from coinbase_value_bound [of example_externals protocol_opcodes example_view 6 example_block 2000]
    coinbase_value_bound [of example_externals protocol_opcodes example_view 210000 example_block 2000]
    ok large ne example_block_fees example_block_passes_bip30
  show ?thesis
    by (simp add: example_coinbase_value v6 v210000)
qed



section \<open>The BIP 30 test\<close>

lemma not_duplicate_or_spent_iff:
  "not_duplicate_or_spent ext view tx \<longleftrightarrow>
     \<not> transaction_exists view (hash_transaction ext tx) \<or>
     (\<forall>i < length (outputs tx).
        is_output_spent view \<lparr>hash = hash_transaction ext tx, index = word_of_nat i\<rparr>)"
  by (auto simp: not_duplicate_or_spent_def Let_def list_all_iff)

lemma connect_input_ignores_bip30_queries:
  "validate_block_connect_input ext oc
     (view\<lparr>transaction_exists := exists', is_output_spent := spent'\<rparr>)
     depth blk index_in_parent tx i st =
   validate_block_connect_input ext oc view depth blk index_in_parent tx i st"
  by (simp add: validate_block_connect_input_def Let_def split: option.splits)

lemma validate_inputs_loop_ignores_bip30_queries:
  "validate_inputs_loop ext oc
     (view\<lparr>transaction_exists := exists', is_output_spent := spent'\<rparr>)
     depth blk index_in_parent tx st is =
   validate_inputs_loop ext oc view depth blk index_in_parent tx st is"
  by (induction "is" arbitrary: st)
    (simp_all add: connect_input_ignores_bip30_queries split: sum.splits option.splits)

lemma connect_transactions_ignores_bip30_queries:
  "connect_transactions ext oc
     (view\<lparr>transaction_exists := exists', is_output_spent := spent'\<rparr>)
     depth blk st tx_index txs =
   connect_transactions ext oc view depth blk st tx_index txs"
  by (induction txs arbitrary: st tx_index)
    (simp_all add: validate_inputs_def validate_inputs_loop_ignores_bip30_queries Let_def
      split: sum.splits option.splits prod.splits bool.splits)

lemma connect_transactions_not_duplicate_or_spent:
  "connect_transactions ext oc view depth blk st tx_index txs \<noteq> Inr (Inl duplicate_or_spent)"
proof (induction txs arbitrary: st tx_index)
  case Nil
  then show ?case by simp
next
  case (Cons tx rest)
  show ?case
    using Cons.IH
    by (auto simp: Let_def split: sum.splits option.splits prod.splits bool.splits)
qed

lemma connect_rest_not_duplicate_or_spent:
  "(case connect_transactions ext oc view depth blk (0, 0) 1 (drop 1 (transactions blk)) of
      Inl f \<Rightarrow> Inl f
    | Inr (Inl ec) \<Rightarrow> Inr (Some ec)
    | Inr (Inr (fees, total_sigops)) \<Rightarrow>
        if transactions blk = [] then Inl out_of_range_access
        else
          let coinbase_value = total_output_value (transactions blk ! 0) in
          if coinbase_value > block_value depth + fees then Inr (Some coinbase_too_large)
          else Inr None) \<noteq> Inr (Some duplicate_or_spent)"
  using connect_transactions_not_duplicate_or_spent
    [of ext oc view depth blk "(0, 0)" 1 "drop 1 (transactions blk)"]
  by (auto simp: Let_def split: sum.splits prod.splits)

text \<open>
  C7. For a block whose transactions have fewer than \<open>2^32\<close> outputs each (the output
  counter of \<^verbatim>\<open>not_duplicate_or_spent\<close> is a \<^verbatim>\<open>uint32_t\<close>): at a depth other than
  \<open>91842\<close> and \<open>91880\<close>, \<^verbatim>\<open>connect_block\<close> returns \<^verbatim>\<open>duplicate_or_spent\<close>
  exactly when it is not the case that for each transaction of the block either no
  transaction with its hash is on record or every output of that hash is spent. At
  the depths \<open>91842\<close> and \<open>91880\<close> the test is skipped: \<^verbatim>\<open>connect_block\<close> never
  returns \<^verbatim>\<open>duplicate_or_spent\<close>, and its result does not depend on what
  \<^verbatim>\<open>transaction_exists\<close> and the one-argument \<^verbatim>\<open>is_output_spent\<close> answer.
\<close>

theorem bip30_duplicate_or_spent:
  assumes "\<forall>tx \<in> set (transactions blk). length (outputs tx) < 2 ^ 32"
  shows "(depth \<noteq> 91842 \<and> depth \<noteq> 91880 \<longrightarrow>
            (connect_block ext oc view depth blk = Inr (Some duplicate_or_spent) \<longleftrightarrow>
             \<not> (\<forall>tx \<in> set (transactions blk).
                  \<not> transaction_exists view (hash_transaction ext tx) \<or>
                  (\<forall>i < length (outputs tx).
                     is_output_spent view
                       \<lparr>hash = hash_transaction ext tx, index = word_of_nat i\<rparr>)))) \<and>
         (depth = 91842 \<or> depth = 91880 \<longrightarrow>
            connect_block ext oc view depth blk \<noteq> Inr (Some duplicate_or_spent) \<and>
            connect_block ext oc (view\<lparr>transaction_exists := exists', is_output_spent := spent'\<rparr>)
              depth blk = connect_block ext oc view depth blk)"
proof (intro conjI impI)
  assume d: "depth \<noteq> 91842 \<and> depth \<noteq> 91880"
  have all: "list_all (not_duplicate_or_spent ext view) (transactions blk) \<longleftrightarrow>
      (\<forall>tx \<in> set (transactions blk).
         \<not> transaction_exists view (hash_transaction ext tx) \<or>
         (\<forall>i < length (outputs tx).
            is_output_spent view \<lparr>hash = hash_transaction ext tx, index = word_of_nat i\<rparr>))"
    by (simp add: list_all_iff not_duplicate_or_spent_iff)
  show "connect_block ext oc view depth blk = Inr (Some duplicate_or_spent) \<longleftrightarrow>
      \<not> (\<forall>tx \<in> set (transactions blk).
           \<not> transaction_exists view (hash_transaction ext tx) \<or>
           (\<forall>i < length (outputs tx).
              is_output_spent view \<lparr>hash = hash_transaction ext tx, index = word_of_nat i\<rparr>))"
    unfolding all [symmetric]
    using d connect_rest_not_duplicate_or_spent
      [where ext = ext and oc = oc and view = view and depth = depth and blk = blk]
    by (simp add: connect_block_def)
next
  assume d: "depth = 91842 \<or> depth = 91880"
  then show "connect_block ext oc view depth blk \<noteq> Inr (Some duplicate_or_spent)"
    using connect_rest_not_duplicate_or_spent
      [where ext = ext and oc = oc and view = view and depth = depth and blk = blk]
    by (auto simp: connect_block_def)
next
  assume d: "depth = 91842 \<or> depth = 91880"
  then show "connect_block ext oc (view\<lparr>transaction_exists := exists', is_output_spent := spent'\<rparr>)
      depth blk = connect_block ext oc view depth blk"
    by (auto simp: connect_block_def connect_transactions_ignores_bip30_queries)
qed


theorem bip30_duplicate_or_spent_witness:
  "length (outputs (transactions example_duplicate_block ! 0)) < 2 ^ 32 \<and>
   transaction_exists example_view
     (hash_transaction example_externals (transactions example_duplicate_block ! 0)) \<and>
   \<not> is_output_spent example_view
     \<lparr>hash = hash_transaction example_externals (transactions example_duplicate_block ! 0),
      index = 0\<rparr> \<and>
   connect_block example_externals protocol_opcodes example_view 6 example_duplicate_block =
     Inr (Some duplicate_or_spent) \<and>
   connect_block example_externals protocol_opcodes example_view 91842 example_duplicate_block =
     Inr None"
proof -
  have txs: "transactions example_duplicate_block = [example_coinbase\<lparr>locktime := 2\<rparr>]"
    by (simp add: example_duplicate_block_def)
  have len: "\<forall>tx \<in> set (transactions example_duplicate_block). length (outputs tx) < 2 ^ 32"
    by (simp add: txs example_coinbase_def)
  have dup: "\<not> (\<forall>tx \<in> set (transactions example_duplicate_block).
      \<not> transaction_exists example_view (hash_transaction example_externals tx) \<or>
      (\<forall>i < length (outputs tx).
         is_output_spent example_view
           \<lparr>hash = hash_transaction example_externals tx, index = word_of_nat i\<rparr>))"
    by (simp add: txs example_externals_simps example_view_simps example_coinbase_def)
  have v: "block_value 91842 = 5000000000"
    by (simp add: block_value_def)
  have skipped: "connect_block example_externals protocol_opcodes example_view 91842
      example_duplicate_block = Inr None"
    by (simp add: connect_block_def txs total_output_value_def example_coinbase_def v)
  from bip30_duplicate_or_spent [OF len, of 6 example_externals protocol_opcodes example_view] dup
  have "connect_block example_externals protocol_opcodes example_view 6 example_duplicate_block =
      Inr (Some duplicate_or_spent)"
    by simp
  with skipped show ?thesis
    by (simp add: txs example_externals_simps example_view_simps example_coinbase_def)
qed


section \<open>The handler of the transaction validator\<close>

lemma basic_checks_inputs: "basic_checks ext pool tx = None \<Longrightarrow> inputs tx \<noteq> []"
  by (auto simp: basic_checks_def check_transaction_def split: option.splits if_splits)

lemma start_invariant: "validator_invariant tx (start ext pool tx)"
  by (auto simp: start_def validator_invariant_def handle_validate_def initial_state_def
      dest: basic_checks_inputs split: option.splits)

lemma start_remaining_steps: "remaining_steps tx (start ext pool tx) \<le> 3 * length (inputs tx) + 2"
  by (simp add: start_def remaining_steps_def handle_validate_def initial_state_def
      split: option.splits)

lemma handle_duplicate_check_step:
  assumes "handled st = []" "pending st = None" "inputs tx \<noteq> []"
  shows "validator_invariant tx (handle_duplicate_check pool tx st ec) \<and>
     remaining_steps tx (handle_duplicate_check pool tx st ec) < 3 * length (inputs tx) + 2"
  using assms
  by (simp add: handle_duplicate_check_def validator_invariant_def remaining_steps_def
      handle_validate_def)

lemma set_last_depth_step:
  assumes "handled st = []" "pending st = None" "inputs tx \<noteq> []"
  shows "validator_invariant tx (set_last_depth st ec last_depth) \<and>
     remaining_steps tx (set_last_depth st ec last_depth) < 3 * length (inputs tx) + 1"
  using assms
  by (simp add: set_last_depth_def next_previous_transaction_def validator_invariant_def
      remaining_steps_def handle_validate_def)

lemma handle_previous_tx_step:
  assumes "handled st = []" "pending st = None" "current_input st < length (inputs tx)"
  shows "validator_invariant tx (handle_previous_tx ext tx st ec previous_tx parent_depth) \<and>
     remaining_steps tx (handle_previous_tx ext tx st ec previous_tx parent_depth)
       < 3 * (length (inputs tx) - current_input st) - 1 \<and>
     current_input (handle_previous_tx ext tx st ec previous_tx parent_depth) = current_input st"
  using assms
  by (auto simp: handle_previous_tx_def validator_invariant_def remaining_steps_def
      handle_validate_def split: prod.splits bool.splits)

lemma unconfirmed_update:
  "validator_invariant tx (st\<lparr>unconfirmed := u\<rparr>) = validator_invariant tx st"
  "remaining_steps tx (st\<lparr>unconfirmed := u\<rparr>) = remaining_steps tx st"
  by (simp_all add: validator_invariant_def remaining_steps_def
      split: option.splits callback.splits)

lemma previous_tx_index_step:
  assumes "handled st = []" "pending st = None" "current_input st < length (inputs tx)"
  shows "validator_invariant tx (previous_tx_index ext pool tx st ec parent_depth) \<and>
     remaining_steps tx (previous_tx_index ext pool tx st ec parent_depth)
       < 3 * (length (inputs tx) - current_input st)"
proof (cases "ec \<noteq> None \<and> fetch pool (hash (previous_output (inputs tx ! current_input st))) \<noteq> None")
  case True
  then obtain previous_tx where
    f: "fetch pool (hash (previous_output (inputs tx ! current_input st))) = Some previous_tx"
    by auto
  let ?st = "handle_previous_tx ext tx st None previous_tx 0"
  have eq: "previous_tx_index ext pool tx st ec parent_depth =
      ?st\<lparr>unconfirmed := unconfirmed ?st @ [word_of_nat (current_input ?st)]\<rparr>"
    using True f by (simp add: previous_tx_index_def search_pool_previous_tx_def Let_def)
  from handle_previous_tx_step [OF assms, of ext None previous_tx 0]
  show ?thesis
    unfolding eq by (auto simp: unconfirmed_update)
next
  case False
  with assms show ?thesis
    by (auto simp: previous_tx_index_def search_pool_previous_tx_def validator_invariant_def
        remaining_steps_def handle_validate_def Let_def)
qed

lemma check_double_spend_step:
  assumes "handled st = []" "pending st = None" "current_input st < length (inputs tx)"
  shows "validator_invariant tx (check_double_spend tx st ec) \<and>
     remaining_steps tx (check_double_spend tx st ec)
       < 3 * (length (inputs tx) - current_input st) - 2"
  using assms
  by (auto simp: check_double_spend_def check_fees_def next_previous_transaction_def
      validator_invariant_def remaining_steps_def handle_validate_def Let_def)

lemma deliver_step:
  assumes inv: "validator_invariant tx st" and d: "deliver ext pool tx st r = Some st'"
  shows "validator_invariant tx st' \<and> remaining_steps tx st' < remaining_steps tx st"
proof -
  from d obtain q where q: "pending st = Some q"
    by (cases "pending st") (auto simp: Let_def)
  let ?idle = "st\<lparr>pending := None\<rparr>"
  from inv q have h: "handled ?idle = []" "pending ?idle = None" "inputs tx \<noteq> []"
    by (simp_all add: validator_invariant_def)
  have cur: "current_input ?idle < length (inputs tx)"
    if "q \<noteq> pending_duplicate_check" "q \<noteq> pending_last_depth"
    using inv q that by (simp add: validator_invariant_def)
  show ?thesis
  proof (cases q)
    case pending_duplicate_check
    with d q obtain ec found where "r = reply_transaction ec found"
      and "st' = handle_duplicate_check pool tx ?idle ec"
      by (cases r) (auto simp: Let_def)
    with handle_duplicate_check_step [OF h, of pool ec] q pending_duplicate_check
    show ?thesis by (simp add: remaining_steps_def)
  next
    case pending_last_depth
    with d q obtain ec last_depth where "r = reply_depth ec last_depth"
      and "st' = set_last_depth ?idle ec last_depth"
      by (cases r) (auto simp: Let_def)
    with set_last_depth_step [OF h, of ec last_depth] q pending_last_depth
    show ?thesis by (simp add: remaining_steps_def)
  next
    case pending_tx_index
    with d q obtain ec parent_depth where "r = reply_depth ec parent_depth"
      and "st' = previous_tx_index ext pool tx ?idle ec parent_depth"
      by (cases r) (auto simp: Let_def)
    with previous_tx_index_step [OF h(1,2) cur, of ext pool ec parent_depth] q pending_tx_index
    show ?thesis by (simp add: remaining_steps_def)
  next
    case (pending_previous_tx parent_depth)
    with d q obtain ec previous_tx where "r = reply_transaction ec previous_tx"
      and "st' = handle_previous_tx ext tx ?idle ec previous_tx parent_depth"
      by (cases r) (auto simp: Let_def)
    with handle_previous_tx_step [OF h(1,2) cur, of ext ec previous_tx parent_depth] q
      pending_previous_tx
    show ?thesis by (simp add: remaining_steps_def)
  next
    case pending_spend
    with d q obtain ec where "r = reply_spend ec"
      and "st' = check_double_spend tx ?idle ec"
      by (cases r) (auto simp: Let_def)
    with check_double_spend_step [OF h(1,2) cur, of ec] q pending_spend
    show ?thesis by (simp add: remaining_steps_def)
  qed
qed

lemma deliver_all_steps:
  "validator_invariant tx st \<Longrightarrow> deliver_all ext pool tx st rs = Some st' \<Longrightarrow>
     validator_invariant tx st' \<and> length rs + remaining_steps tx st' \<le> remaining_steps tx st"
proof (induction rs arbitrary: st)
  case Nil
  then show ?case by simp
next
  case (Cons r rs)
  from Cons.prems(2) obtain st1 where d: "deliver ext pool tx st r = Some st1"
    and rest: "deliver_all ext pool tx st1 rs = Some st'"
    by (cases "deliver ext pool tx st r") simp_all
  from deliver_step [OF Cons.prems(1) d] Cons.IH [OF _ rest] show ?case
    by force
qed

lemma deliver_answer:
  "pending st = Some q \<Longrightarrow> answers q r \<Longrightarrow> \<exists>st'. deliver ext pool tx st r = Some st'"
  by (cases q; cases r) (simp_all add: Let_def)

lemma deliver_idle: "pending st = None \<Longrightarrow> deliver ext pool tx st r = None"
  by (simp add: Let_def)

lemma answers_exists: "\<exists>r. answers q r"
proof (cases q)
  case pending_duplicate_check
  have "answers pending_duplicate_check (reply_transaction None undefined)" by simp
  with pending_duplicate_check show ?thesis by blast
next
  case pending_last_depth
  have "answers pending_last_depth (reply_depth None 0)" by simp
  with pending_last_depth show ?thesis by blast
next
  case pending_tx_index
  have "answers pending_tx_index (reply_depth None 0)" by simp
  with pending_tx_index show ?thesis by blast
next
  case (pending_previous_tx d)
  have "answers (pending_previous_tx d) (reply_transaction None undefined)" by simp
  with pending_previous_tx show ?thesis by blast
next
  case pending_spend
  have "answers pending_spend (reply_spend None)" by simp
  with pending_spend show ?thesis by blast
qed

lemma final_iff_no_step:
  "pending st = None \<longleftrightarrow> \<not> (\<exists>st'. validator_step ext pool tx st st')"
proof (cases "pending st")
  case None
  then show ?thesis
    by (auto simp: validator_step.simps deliver_idle simp del: deliver.simps)
next
  case (Some q)
  from answers_exists obtain r where "answers q r" ..
  from deliver_answer [OF Some this] obtain st' where "deliver ext pool tx st r = Some st'"
    by blast
  then have "validator_step ext pool tx st st'"
    by (rule validator_step.intros)
  with Some show ?thesis by auto
qed

text \<open>
  C8. Let the validator be started and let it have received any sequence of answers,
  each to the query then in flight, reaching the state \<open>st\<close>. Then the handler has
  been invoked at most once, and exactly once precisely when no query is in flight;
  the number of answers received and of steps that may remain is at most
  \<open>3 * |inputs| + 2\<close>, so no run goes on for ever; every answer to the query in
  flight is a step; and the states without a step are those with no query in flight.
  So every run in which the chain answers each query ends, and ends with exactly one
  invocation of the handler.
\<close>

theorem handler_invoked_exactly_once:
  assumes run: "deliver_all ext pool tx (start ext pool tx) rs = Some st"
  shows "length (handled st) \<le> 1 \<and>
         (length (handled st) = 1 \<longleftrightarrow> pending st = None) \<and>
         length rs + remaining_steps tx st \<le> 3 * length (inputs tx) + 2 \<and>
         (\<forall>q r. pending st = Some q \<and> answers q r \<longrightarrow>
            (\<exists>st'. deliver ext pool tx st r = Some st')) \<and>
         (pending st = None \<longleftrightarrow> \<not> (\<exists>st'. validator_step ext pool tx st st'))"
proof -
  from deliver_all_steps [OF start_invariant run]
  have inv: "validator_invariant tx st"
    and steps: "length rs + remaining_steps tx st \<le> remaining_steps tx (start ext pool tx)"
    by simp_all
  from inv have "length (handled st) \<le> 1" "length (handled st) = 1 \<longleftrightarrow> pending st = None"
    by (auto simp: validator_invariant_def split: option.splits)
  moreover from steps start_remaining_steps [of tx ext pool]
  have "length rs + remaining_steps tx st \<le> 3 * length (inputs tx) + 2"
    by simp
  moreover have "\<forall>q r. pending st = Some q \<and> answers q r \<longrightarrow>
      (\<exists>st'. deliver ext pool tx st r = Some st')"
    using deliver_answer by blast
  ultimately show ?thesis
    using final_iff_no_step [of st ext pool tx] by blast
qed

text \<open>A run of \<open>example_tx\<close> against an empty pool, to its end.\<close>

lemma example_tx_run:
  "deliver_all example_externals [] example_tx (start example_externals [] example_tx)
     [reply_transaction (Some not_found) example_tx, reply_depth None 10, reply_depth None 5,
      reply_transaction None example_parent, reply_spend (Some unspent_output)] =
   Some \<lparr>last_block_depth = 10, value_in = 3000, current_input = 1, unconfirmed = [],
         pending = None, handled = [(None, [])]\<rparr>"
  by (simp add: example_tx_start initial_state_def handle_duplicate_check_def is_spent_def
      set_last_depth_def next_previous_transaction_def previous_tx_index_def
      handle_previous_tx_def validate_transaction_connect_input_def example_tx_simps
      example_parent_simps example_externals_simps max_money_def check_double_spend_def
      check_fees_def handle_validate_def)

theorem handler_invoked_exactly_once_witness:
  "map_option handled
     (deliver_all example_externals [] example_tx (start example_externals [] example_tx)
        [reply_transaction (Some not_found) example_tx, reply_depth None 10, reply_depth None 5,
         reply_transaction None example_parent, reply_spend (Some unspent_output)]) =
     Some [(None, [])] \<and>
   length (handled \<lparr>last_block_depth = 10, value_in = 3000, current_input = 1, unconfirmed = [],
         pending = None, handled = [(None, [])]\<rparr>) = 1 \<and>
   \<not> (\<exists>st'. validator_step example_externals [] example_tx
         \<lparr>last_block_depth = 10, value_in = 3000, current_input = 1, unconfirmed = [],
          pending = None, handled = [(None, [])]\<rparr> st')"
  using handler_invoked_exactly_once [OF example_tx_run] example_tx_run
  by simp

text \<open>
  C2 (as amended). When the basic checks pass and the duplicate-check query completes
  with anything but \<^verbatim>\<open>not_found\<close> (success, or an error such as
  \<^verbatim>\<open>service_stopped\<close>), the validator invokes the handler with \<^verbatim>\<open>error::duplicate\<close> and
  an empty index list, and issues no further query.
\<close>

theorem duplicate_check_reports_duplicate:
  assumes "basic_checks ext pool tx = None" and "ec \<noteq> Some not_found"
  shows "\<exists>st'. deliver ext pool tx (start ext pool tx) (reply_transaction ec found) = Some st' \<and>
     handled st' = [(Some duplicate, [])] \<and> pending st' = None"
  using assms
  by (simp add: start_def initial_state_def handle_duplicate_check_def handle_validate_def)

theorem duplicate_check_reports_duplicate_witness:
  "basic_checks example_externals [] example_tx = None \<and>
   (\<exists>st'. deliver example_externals [] example_tx (start example_externals [] example_tx)
       (reply_transaction (Some service_stopped) example_tx) = Some st' \<and>
     handled st' = [(Some duplicate, [])] \<and> pending st' = None)"
  using duplicate_check_reports_duplicate
    [OF example_tx_basic_checks, of "Some service_stopped" example_tx]
    example_tx_basic_checks
  by simp

text \<open>
  The duplicate-check query of \<open>example_tx\<close> fails with \<^verbatim>\<open>service_stopped\<close>: the
  handler is invoked once, with \<^verbatim>\<open>duplicate\<close>.
\<close>

theorem duplicate_check_service_stopped_counterexample:
  "basic_checks example_externals [] example_tx = None \<and>
   map_option handled
     (deliver example_externals [] example_tx (start example_externals [] example_tx)
        (reply_transaction (Some service_stopped) example_tx)) = Some [(Some duplicate, [])] \<and>
   Some duplicate \<noteq> Some service_stopped"
  by (simp add: example_tx_basic_checks example_tx_start initial_state_def
      handle_duplicate_check_def handle_validate_def)

end
